theory Spec2Isabelle
  imports Complex_Main "HOL-Library.Multiset"
begin

section \<open>Data model (shared/schema.ts)\<close>

text \<open>
  Rows are records whose fields follow the columns of the Drizzle tables. A column without
  \<open>notNull()\<close> is nullable and has an option type, \<open>None\<close> being SQL NULL. Identifiers
  (\<open>uuid\<close> and \<open>varchar\<close> keys) are strings, a string being the list of its characters,
  \<open>decimal\<close> columns of tasks and transactions are the strings Drizzle hands to the
  program, and a \<open>timestamp\<close> is a number.

  Of the constraints of the schema the model keeps the primary keys, \<open>NOT NULL\<close>, the
  references to \<open>users\<close> and \<open>tasks\<close>, the ranges of the two numeric columns of the rating
  aggregate, and, for the columns that \<open>updateTask\<close> writes from a request body, what
  PostgreSQL accepts as a value: no text holds the character NUL, a \<open>varchar(255)\<close> holds
  at most 255 characters, and a \<open>decimal(10, 2)\<close> holds a number. A statement that
  violates one of them throws, which the handlers turn into status 500. The syntax of a
  \<open>uuid\<close> is not modelled, and neither are the tables \<open>communities\<close>,
  \<open>community_members\<close> and \<open>messages\<close>, which no operation below reads or writes.
\<close>

type_synonym timestamp = nat

datatype db_error =
  NotNullViolation | UniqueViolation | ForeignKeyViolation | NumericValueOutOfRange |
  InvalidTextRepresentation | StringDataRightTruncation

text \<open>
  Of a user the model keeps the key and the aggregates; \<open>rating\<close> is the column
  \<open>decimal(3, 2)\<close>, a fixed-point number kept as its count of hundredths.
\<close>

record user =
  user_id :: string
  user_rating :: "int option"
  completedTasks :: "int option"
  helpGiven :: "int option"
  helpReceived :: "int option"

record task =
  task_id :: string
  title :: string
  description :: string
  category :: string
  reward :: string
  timeEstimate :: "string option"
  location :: "string option"
  task_status :: "string option"
  task_authorId :: string
  task_helperId :: "string option"
  task_communityId :: string
  task_createdAt :: "timestamp option"
  task_updatedAt :: "timestamp option"

record conversation =
  conv_id :: string
  conv_taskId :: string
  conv_authorId :: string
  conv_participantId :: string
  lastMessageAt :: "timestamp option"
  conv_createdAt :: "timestamp option"

record transaction =
  txn_id :: string
  txn_taskId :: string
  txn_payerId :: string
  txn_payeeId :: string
  txn_amount :: string
  txn_status :: "string option"
  payerStartRequested :: "bool option"
  payeeStartRequested :: "bool option"
  payerConfirmed :: "bool option"
  payeeConfirmed :: "bool option"
  txn_createdAt :: "timestamp option"
  completedAt :: "timestamp option"

record rating =
  rating_id :: string
  rating_taskId :: string
  raterId :: string
  ratedId :: string
  rating :: int
  comment :: "string option"
  rating_createdAt :: "timestamp option"

section \<open>JavaScript values\<close>

text \<open>JavaScript truthiness of a nullable boolean: only \<open>true\<close> is truthy.\<close>

definition truthy :: "bool option \<Rightarrow> bool" where
  "truthy b = (b = Some True)"

text \<open>
  \<open>req.body.helperId && ...\<close>: a key is truthy when it is present, not \<open>null\<close> and not the
  empty string.
\<close>

definition truthy_string :: "string option option \<Rightarrow> bool" where
  "truthy_string v = (case v of Some (Some s) \<Rightarrow> s \<noteq> [] | _ \<Rightarrow> False)"

subsection \<open>Numbers\<close>

text \<open>
  A Number is an IEEE 754 binary64 value, and a finite one is a rational. An arithmetic
  operation returns the exact result rounded to the nearest value with a significand of 53
  bits, a tie going to the even significand. \<open>exponent\<close> is the binary exponent of a value,
  between the least (-1022) and the greatest (1023) of the format; below the least one the
  spacing of the subnormal numbers results. Overflow to \<open>Infinity\<close> is not modelled: the sums
  and quotients below stay far from it.
\<close>

definition round_half_even :: "rat \<Rightarrow> int" where
  "round_half_even r =
     (let f = \<lfloor>r\<rfloor>; d = r - of_int f
      in if d < 1 / 2 then f else if 1 / 2 < d then f + 1 else if even f then f else f + 1)"

fun exponent_up :: "nat \<Rightarrow> rat \<Rightarrow> int" where
  "exponent_up 0 q = 0"
| "exponent_up (Suc k) q = (if 2 \<le> q then exponent_up k (q / 2) + 1 else 0)"

fun exponent_down :: "nat \<Rightarrow> rat \<Rightarrow> int" where
  "exponent_down 0 q = 0"
| "exponent_down (Suc k) q = (if q < 1 then exponent_down k (2 * q) - 1 else 0)"

definition exponent :: "rat \<Rightarrow> int" where
  "exponent q = (if 1 \<le> \<bar>q\<bar> then exponent_up 1023 \<bar>q\<bar> else exponent_down 1022 \<bar>q\<bar>)"

definition binary64 :: "rat \<Rightarrow> rat" where
  "binary64 q =
     (let ulp = 2 powi (exponent q - 52) in of_int (round_half_even (q / ulp)) * ulp)"

definition js_add :: "rat \<Rightarrow> rat \<Rightarrow> rat" where
  "js_add a b = binary64 (a + b)"

text \<open>Division by a divisor other than zero.\<close>

definition js_div :: "rat \<Rightarrow> rat \<Rightarrow> rat" where
  "js_div a b = binary64 (a / b)"

text \<open>
  \<open>x.toFixed(2)\<close>, as the number of hundredths that the string denotes: the integer \<open>n\<close> for
  which \<open>n / 100\<close> is closest to the absolute value of \<open>x\<close>, the larger one if there are two,
  with the sign of \<open>x\<close>.
\<close>

definition toFixed2 :: "rat \<Rightarrow> int" where
  "toFixed2 x = (if x < 0 then - \<lfloor>(- x) * 100 + 1 / 2\<rfloor> else \<lfloor>x * 100 + 1 / 2\<rfloor>)"

section \<open>Storage (DatabaseStorage)\<close>

text \<open>
  A table is the list of its rows, in the order in which a \<open>select\<close> without \<open>orderBy\<close>
  returns them; \<open>const [row] = ...\<close> takes the first of the matching rows, \<open>undefined\<close>
  (\<open>None\<close>) when there is none. An \<open>insert\<close> puts the new row at the end, with the fresh
  key \<open>newId\<close> that \<open>gen_random_uuid()\<close> returns and the time \<open>now\<close> of \<open>defaultNow()\<close>.
\<close>

subsection \<open>Tasks\<close>

text \<open>
  \<open>getTask\<close>: the row with the key. (The source joins the profiles of author and helper to
  it, which the handlers below do not read.)
\<close>

definition getTask :: "task list \<Rightarrow> string \<Rightarrow> task option" where
  "getTask tasks i = find (\<lambda>t. task_id t = i) tasks"

text \<open>
  The body of \<open>PATCH /api/tasks/:id\<close> goes to \<open>updateTask\<close> as it is. A key of the body
  is absent (\<open>None\<close>), \<open>null\<close> (\<open>Some None\<close>) or a value. The value of a text column is a
  string. The value of \<open>reward\<close> is given by what the input of \<open>decimal(10, 2)\<close> makes of
  it: \<open>Numeric v\<close> when PostgreSQL reads a number there, \<open>v\<close> being the text of the number
  it stores (with two decimals), and \<open>NotNumeric\<close> when it refuses the value. The keys
  \<open>id\<close>, \<open>communityId\<close> and \<open>createdAt\<close> are not part of the modelled bodies, and
  \<open>updatedAt\<close> of a body is overwritten by the storage.
\<close>

datatype numeric_input = Numeric string | NotNumeric

record task_patch =
  p_title :: "string option option"
  p_description :: "string option option"
  p_category :: "string option option"
  p_reward :: "numeric_input option option"
  p_timeEstimate :: "string option option"
  p_location :: "string option option"
  p_status :: "string option option"
  p_authorId :: "string option option"
  p_helperId :: "string option option"

definition no_patch :: task_patch where
  "no_patch =
     \<lparr>p_title = None, p_description = None, p_category = None, p_reward = None,
      p_timeEstimate = None, p_location = None, p_status = None, p_authorId = None,
      p_helperId = None\<rparr>"

text \<open>
  What PostgreSQL accepts as the value of a column. A text holds no character NUL. A
  \<open>varchar(255)\<close> takes a longer string only when the characters after the first 255 are
  all spaces, and stores the first 255 then. A \<open>decimal(10, 2)\<close> takes what reads as a
  number.
\<close>

definition valid_text :: "string option option \<Rightarrow> bool" where
  "valid_text v = (case v of Some (Some s) \<Rightarrow> CHR 0x00 \<notin> set s | _ \<Rightarrow> True)"

definition fits_varchar255 :: "string option option \<Rightarrow> bool" where
  "fits_varchar255 v =
     (case v of Some (Some s) \<Rightarrow> set (drop 255 s) \<subseteq> {CHR '' ''} | _ \<Rightarrow> True)"

definition patch_values_ok :: "task_patch \<Rightarrow> bool" where
  "patch_values_ok p =
     (valid_text (p_title p) \<and> valid_text (p_description p) \<and> valid_text (p_category p) \<and>
      valid_text (p_timeEstimate p) \<and> valid_text (p_location p) \<and> valid_text (p_status p) \<and>
      valid_text (p_authorId p) \<and> valid_text (p_helperId p) \<and>
      p_reward p \<noteq> Some (Some NotNumeric))"

text \<open>The columns \<open>title\<close>, \<open>description\<close>, \<open>category\<close>, \<open>reward\<close> and \<open>author_id\<close> are \<open>NOT NULL\<close>.\<close>

definition patch_not_null_ok :: "task_patch \<Rightarrow> bool" where
  "patch_not_null_ok p =
     (p_title p \<noteq> Some None \<and> p_description p \<noteq> Some None \<and> p_category p \<noteq> Some None \<and>
      p_reward p \<noteq> Some None \<and> p_authorId p \<noteq> Some None)"

text \<open>The references of a patch: an author or a helper that it writes must be a user.\<close>

definition patch_refs_ok :: "user list \<Rightarrow> task_patch \<Rightarrow> bool" where
  "patch_refs_ok users p =
     ((case p_authorId p of Some (Some a) \<Rightarrow> a \<in> set (map user_id users) | _ \<Rightarrow> True) \<and>
      (case p_helperId p of Some (Some h) \<Rightarrow> h \<in> set (map user_id users) | _ \<Rightarrow> True))"

text \<open>
  A key of the body overwrites its column; an absent key leaves the column as it is. (A
  \<open>null\<close> for a column that is \<open>NOT NULL\<close> never reaches a row: the statement fails.)
\<close>

definition set_req :: "'a option \<Rightarrow> 'a \<Rightarrow> 'a" where
  "set_req new old = (case new of None \<Rightarrow> old | Some v \<Rightarrow> v)"

definition set_not_null :: "'a option option \<Rightarrow> 'a \<Rightarrow> 'a" where
  "set_not_null new old = (case new of Some (Some v) \<Rightarrow> v | _ \<Rightarrow> old)"

definition set_varchar255 :: "string option option \<Rightarrow> string \<Rightarrow> string" where
  "set_varchar255 new old = (case new of Some (Some s) \<Rightarrow> take 255 s | _ \<Rightarrow> old)"

definition set_numeric :: "numeric_input option option \<Rightarrow> string \<Rightarrow> string" where
  "set_numeric new old = (case new of Some (Some (Numeric v)) \<Rightarrow> v | _ \<Rightarrow> old)"

text \<open>\<open>set({ ...updates, updatedAt: new Date() })\<close> on one row.\<close>

definition set_task :: "task_patch \<Rightarrow> timestamp \<Rightarrow> task \<Rightarrow> task" where
  "set_task p now t =
     t\<lparr>title := set_varchar255 (p_title p) (title t),
       description := set_not_null (p_description p) (description t),
       category := set_not_null (p_category p) (category t),
       reward := set_numeric (p_reward p) (reward t),
       timeEstimate := set_req (p_timeEstimate p) (timeEstimate t),
       location := set_req (p_location p) (location t),
       task_status := set_req (p_status p) (task_status t),
       task_authorId := set_not_null (p_authorId p) (task_authorId t),
       task_helperId := set_req (p_helperId p) (task_helperId t),
       task_updatedAt := Some now\<rparr>"

text \<open>
  \<open>update(tasks).set(...).where(eq(tasks.id, id)).returning()\<close>. The values of the statement
  are read before any row is looked at; \<open>NOT NULL\<close> and the references are checked on the
  rows that are rewritten, so that they never fail on a statement that matches no row. The
  handlers read the tasks and the users by primary key only, where the place of a row in the
  table does not show, and the row is rewritten where it is.
\<close>

definition updateTask ::
  "user list \<Rightarrow> task list \<Rightarrow> string \<Rightarrow> task_patch \<Rightarrow> timestamp \<Rightarrow>
   db_error + (task option \<times> task list)" where
  "updateTask users tasks i p now =
     (if \<not> patch_values_ok p then Inl InvalidTextRepresentation
      else if \<not> fits_varchar255 (p_title p) then Inl StringDataRightTruncation
      else if i \<in> set (map task_id tasks) \<and> \<not> patch_not_null_ok p then Inl NotNullViolation
      else if i \<in> set (map task_id tasks) \<and> \<not> patch_refs_ok users p then Inl ForeignKeyViolation
      else
        (let tasks' = map (\<lambda>t. if task_id t = i then set_task p now t else t) tasks
         in Inr (find (\<lambda>t. task_id t = i) tasks', tasks')))"

subsection \<open>Transactions\<close>

definition getTaskTransaction :: "transaction list \<Rightarrow> string \<Rightarrow> transaction option" where
  "getTaskTransaction txs taskId = find (\<lambda>t. txn_taskId t = taskId) txs"

text \<open>
  \<open>InsertTransaction\<close> as the handler fills it: \<open>payeeId\<close> is \<open>task.helperId!\<close>, which
  the type checker takes for a string and which is \<open>null\<close> at run time when the task has no
  helper.
\<close>

record insert_transaction =
  ins_taskId :: string
  ins_payerId :: string
  ins_payeeId :: "string option"
  ins_amount :: string

text \<open>
  \<open>insert(transactions).values({...transaction, status: 'pending'}).returning()\<close>. The
  columns left out take their defaults: the four flags are \<open>false\<close> and \<open>completedAt\<close> is
  NULL.
\<close>

definition createTransaction ::
  "user list \<Rightarrow> task list \<Rightarrow> transaction list \<Rightarrow> string \<Rightarrow> timestamp \<Rightarrow> insert_transaction \<Rightarrow>
   db_error + (transaction \<times> transaction list)" where
  "createTransaction users tasks txs newId now ins =
     (case ins_payeeId ins of
        None \<Rightarrow> Inl NotNullViolation
      | Some payee \<Rightarrow>
          if newId \<in> set (map txn_id txs) then Inl UniqueViolation
          else if ins_taskId ins \<notin> set (map task_id tasks) \<or>
                  ins_payerId ins \<notin> set (map user_id users) \<or>
                  payee \<notin> set (map user_id users) then Inl ForeignKeyViolation
          else
            (let newTransaction =
                   \<lparr>txn_id = newId, txn_taskId = ins_taskId ins, txn_payerId = ins_payerId ins,
                    txn_payeeId = payee, txn_amount = ins_amount ins,
                    txn_status = Some ''pending'',
                    payerStartRequested = Some False, payeeStartRequested = Some False,
                    payerConfirmed = Some False, payeeConfirmed = Some False,
                    txn_createdAt = Some now, completedAt = None\<rparr>
             in Inr (newTransaction, txs @ [newTransaction])))"

text \<open>
  The object \<open>updates\<close> that the two handshake routes build (\<open>const updates: any = {}\<close>):
  a key that was never assigned is \<open>None\<close>.
\<close>

record txn_updates =
  u_payerStartRequested :: "bool option"
  u_payeeStartRequested :: "bool option"
  u_payerConfirmed :: "bool option"
  u_payeeConfirmed :: "bool option"
  u_status :: "string option"
  u_completedAt :: "timestamp option"

definition no_updates :: txn_updates where
  "no_updates =
     \<lparr>u_payerStartRequested = None, u_payeeStartRequested = None, u_payerConfirmed = None,
      u_payeeConfirmed = None, u_status = None, u_completedAt = None\<rparr>"

text \<open>Overwriting a column by a key of a partial object, when the key is present.\<close>

definition set_col :: "'a option \<Rightarrow> 'a option \<Rightarrow> 'a option" where
  "set_col new old = (case new of None \<Rightarrow> old | Some v \<Rightarrow> Some v)"

definition set_txn :: "txn_updates \<Rightarrow> transaction \<Rightarrow> transaction" where
  "set_txn u t =
     t\<lparr>payerStartRequested := set_col (u_payerStartRequested u) (payerStartRequested t),
       payeeStartRequested := set_col (u_payeeStartRequested u) (payeeStartRequested t),
       payerConfirmed := set_col (u_payerConfirmed u) (payerConfirmed t),
       payeeConfirmed := set_col (u_payeeConfirmed u) (payeeConfirmed t),
       txn_status := set_col (u_status u) (txn_status t),
       completedAt := set_col (u_completedAt u) (completedAt t)\<rparr>"

text \<open>
  \<open>update(transactions).set(updates).where(eq(transactions.id, id)).returning()\<close>: every row
  with that id is rewritten, and the first rewritten row is returned. PostgreSQL writes the
  new version of a row as a new tuple and promises no order for a \<open>select\<close> without
  \<open>orderBy\<close>; here the new versions go to the end of the table, so that
  \<open>getTaskTransaction\<close>, which selects by task, may afterwards find another transaction of
  the same task first.
\<close>

definition updateTransaction ::
  "transaction list \<Rightarrow> string \<Rightarrow> txn_updates \<Rightarrow> transaction option \<times> transaction list" where
  "updateTransaction txs i u =
     (let updated = map (set_txn u) (filter (\<lambda>t. txn_id t = i) txs)
      in (case updated of [] \<Rightarrow> None | updatedTransaction # rest \<Rightarrow> Some updatedTransaction,
          filter (\<lambda>t. txn_id t \<noteq> i) txs @ updated))"

subsection \<open>Conversations\<close>

text \<open>
  \<open>getOrCreateConversation\<close>: the first row with the three keys, or else a new row whose
  \<open>id\<close> is the fresh \<open>newId\<close>, whose \<open>createdAt\<close> is \<open>now\<close> and whose \<open>lastMessageAt\<close> is
  NULL.
\<close>

definition getOrCreateConversation ::
  "user list \<Rightarrow> task list \<Rightarrow> conversation list \<Rightarrow> string \<Rightarrow> timestamp \<Rightarrow>
   string \<Rightarrow> string \<Rightarrow> string \<Rightarrow> db_error + (conversation \<times> conversation list)" where
  "getOrCreateConversation users tasks convs newId now taskId authorId participantId =
     (case find (\<lambda>c. conv_taskId c = taskId \<and> conv_authorId c = authorId \<and>
                     conv_participantId c = participantId) convs of
        Some existingConversation \<Rightarrow> Inr (existingConversation, convs)
      | None \<Rightarrow>
          if newId \<in> set (map conv_id convs) then Inl UniqueViolation
          else if taskId \<notin> set (map task_id tasks) \<or> authorId \<notin> set (map user_id users) \<or>
                  participantId \<notin> set (map user_id users) then Inl ForeignKeyViolation
          else
            (let newConversation =
                   \<lparr>conv_id = newId, conv_taskId = taskId, conv_authorId = authorId,
                    conv_participantId = participantId, lastMessageAt = None,
                    conv_createdAt = Some now\<rparr>
             in Inr (newConversation, convs @ [newConversation])))"

subsection \<open>Ratings\<close>

record insert_rating =
  ins_rating_taskId :: string
  ins_raterId :: string
  ins_ratedId :: string
  ins_rating :: int
  ins_comment :: "string option"

text \<open>
  \<open>userRatings.reduce((sum, r) => sum + r.rating, 0) / userRatings.length\<close>; on an empty
  array the quotient is \<open>NaN\<close>, here \<open>None\<close>.
\<close>

definition avgRating :: "rating list \<Rightarrow> rat option" where
  "avgRating userRatings =
     (if userRatings = [] then None
      else Some (js_div (foldl (\<lambda>sum r. js_add sum (of_int (rating r))) 0 userRatings)
                        (of_nat (length userRatings))))"

text \<open>The inserted row, and \<open>update(users).set({ rating }).where(eq(users.id, i))\<close>.\<close>

definition newRatingRow :: "string \<Rightarrow> timestamp \<Rightarrow> insert_rating \<Rightarrow> rating" where
  "newRatingRow newId now ins =
     \<lparr>rating_id = newId, rating_taskId = ins_rating_taskId ins, raterId = ins_raterId ins,
      ratedId = ins_ratedId ins, rating = ins_rating ins, comment = ins_comment ins,
      rating_createdAt = Some now\<rparr>"

definition setUserRating :: "user list \<Rightarrow> string \<Rightarrow> int \<Rightarrow> user list" where
  "setUserRating users i v =
     map (\<lambda>u. if user_id u = i then u\<lparr>user_rating := Some v\<rparr> else u) users"

text \<open>
  \<open>createRating\<close> runs three statements, with no transaction around them: the insertion
  (the column \<open>rating\<close> is a 32-bit integer), the selection of all ratings of the rated user,
  and the update of \<open>users.rating\<close> with \<open>avgRating.toFixed(2)\<close>, a \<open>decimal(3, 2)\<close> that
  holds absolute values below 10. When the update throws, the inserted row stays.
\<close>

definition createRating ::
  "user list \<Rightarrow> task list \<Rightarrow> rating list \<Rightarrow> string \<Rightarrow> timestamp \<Rightarrow> insert_rating \<Rightarrow>
   (db_error + rating) \<times> rating list \<times> user list" where
  "createRating users tasks ratings newId now ins =
     (if newId \<in> set (map rating_id ratings) then (Inl UniqueViolation, ratings, users)
      else if ins_rating_taskId ins \<notin> set (map task_id tasks) \<or>
              ins_raterId ins \<notin> set (map user_id users) \<or>
              ins_ratedId ins \<notin> set (map user_id users)
      then (Inl ForeignKeyViolation, ratings, users)
      else if ins_rating ins < - (2 ^ 31) \<or> 2 ^ 31 \<le> ins_rating ins
      then (Inl NumericValueOutOfRange, ratings, users)
      else
        (let newRating = newRatingRow newId now ins;
             ratings' = ratings @ [newRating];
             userRatings = filter (\<lambda>r. ratedId r = ins_ratedId ins) ratings'
         in case avgRating userRatings of
              None \<Rightarrow> (Inl InvalidTextRepresentation, ratings', users)
            | Some avg \<Rightarrow>
                if 1000 \<le> \<bar>toFixed2 avg\<bar> then (Inl NumericValueOutOfRange, ratings', users)
                else (Inr newRating, ratings',
                      setUserRating users (ins_ratedId ins) (toFixed2 avg))))"

section \<open>Requests, responses and the broadcaster (server/routes.ts)\<close>

text \<open>
  A request carries the authenticated subject (\<open>req.user.claims.sub\<close>), the path parameter
  \<open>:id\<close> and a body. A response is either \<open>res.json(value)\<close> or \<open>res.status(code)\<close> with a
  message.
\<close>

record 'b request =
  user_sub :: string
  params_id :: string
  body :: 'b

datatype 'a response = Json 'a | Status nat

text \<open>The body of the two handshake routes, \<open>{ taskId }\<close>, with \<open>taskId\<close> a string.\<close>

record txn_body =
  body_taskId :: string

datatype readyState = CONNECTING | OPEN | CLOSING | CLOSED

record ws_event =
  ev_type :: string
  ev_taskId :: string
  requestedBy :: string
  otherUserId :: string
  bothRequested :: bool

text \<open>
  \<open>wss.clients.forEach\<close>: a client is a socket name with its ready state; the result is the
  list of messages sent, one to every client that is \<open>OPEN\<close>.
\<close>

definition broadcast :: "(nat \<times> readyState) list \<Rightarrow> 'e \<Rightarrow> (nat \<times> 'e) list" where
  "broadcast clients ev = map (\<lambda>c. (fst c, ev)) (filter (\<lambda>c. snd c = OPEN) clients)"

section \<open>PATCH /api/tasks/:id\<close>

definition patch_task_route ::
  "user list \<Rightarrow> task list \<Rightarrow> timestamp \<Rightarrow> task_patch request \<Rightarrow>
   task option response \<times> task list" where
  "patch_task_route users tasks now req =
     (case getTask tasks (params_id req) of
        None \<Rightarrow> (Status 404, tasks)
      | Some task \<Rightarrow>
          if truthy_string (p_helperId (body req)) \<and>
             p_helperId (body req) = Some (Some (task_authorId task)) then (Status 400, tasks)
          else if task_authorId task \<noteq> user_sub req \<and>
                  p_helperId (body req) \<noteq> Some (Some (user_sub req)) then (Status 403, tasks)
          else
            (case updateTask users tasks (params_id req) (body req) now of
               Inl e \<Rightarrow> (Status 500, tasks)
             | Inr (updatedTask, tasks') \<Rightarrow> (Json updatedTask, tasks')))"

section \<open>DELETE /api/tasks/:id\<close>

definition delete_task_route ::
  "user list \<Rightarrow> task list \<Rightarrow> timestamp \<Rightarrow> unit request \<Rightarrow> task option response \<times> task list" where
  "delete_task_route users tasks now req =
     (case getTask tasks (params_id req) of
        None \<Rightarrow> (Status 404, tasks)
      | Some task \<Rightarrow>
          if task_authorId task \<noteq> user_sub req then (Status 403, tasks)
          else if task_status task \<noteq> Some ''open'' \<and> task_status task \<noteq> Some ''accepted''
          then (Status 400, tasks)
          else
            (case updateTask users tasks (params_id req)
                    (no_patch\<lparr>p_status := Some (Some ''cancelled'')\<rparr>) now of
               Inl e \<Rightarrow> (Status 500, tasks)
             | Inr (cancelledTask, tasks') \<Rightarrow> (Json cancelledTask, tasks')))"

section \<open>POST /api/tasks/:id/transaction\<close>

definition create_transaction_route ::
  "user list \<Rightarrow> task list \<Rightarrow> transaction list \<Rightarrow> string \<Rightarrow> timestamp \<Rightarrow> unit request \<Rightarrow>
   transaction response \<times> transaction list" where
  "create_transaction_route users tasks txs newId now req =
     (case getTask tasks (params_id req) of
        None \<Rightarrow> (Status 404, txs)
      | Some task \<Rightarrow>
          (case createTransaction users tasks txs newId now
                  \<lparr>ins_taskId = params_id req, ins_payerId = task_authorId task,
                   ins_payeeId = task_helperId task, ins_amount = reward task\<rparr> of
             Inl e \<Rightarrow> (Status 500, txs)
           | Inr (transaction, txs') \<Rightarrow> (Json transaction, txs')))"

section \<open>PATCH /api/transactions/:id/start-request\<close>

text \<open>
  The part of the handler after the role has been found: the status is recomputed from the
  key just written and the stored flag of the other side, the row is updated, and the event is
  sent.
\<close>

definition start_request_finish ::
  "transaction list \<Rightarrow> (nat \<times> readyState) list \<Rightarrow> txn_body request \<Rightarrow> transaction \<Rightarrow>
   txn_updates \<Rightarrow> string \<Rightarrow>
   transaction option response \<times> transaction list \<times> (nat \<times> ws_event) list" where
  "start_request_finish txs clients req tx updates0 userRole =
     (let updates =
            (if (truthy (u_payerStartRequested updates0) \<and> truthy (payeeStartRequested tx)) \<or>
                (truthy (u_payeeStartRequested updates0) \<and> truthy (payerStartRequested tx))
             then updates0\<lparr>u_status := Some ''in_progress''\<rparr>
             else updates0\<lparr>u_status := Some ''start_requested''\<rparr>);
          (updatedTransaction, txs') = updateTransaction txs (txn_id tx) updates;
          other = (if userRole = ''payer'' then txn_payeeId tx else txn_payerId tx);
          sent = broadcast clients
                   \<lparr>ev_type = ''transaction_start_request'',
                    ev_taskId = body_taskId (body req),
                    requestedBy = user_sub req,
                    otherUserId = other,
                    bothRequested = (u_status updates = Some ''in_progress'')\<rparr>
      in (Json updatedTransaction, txs', sent))"

definition start_request_route ::
  "transaction list \<Rightarrow> (nat \<times> readyState) list \<Rightarrow> txn_body request \<Rightarrow>
   transaction option response \<times> transaction list \<times> (nat \<times> ws_event) list" where
  "start_request_route txs clients req =
     (case getTaskTransaction txs (body_taskId (body req)) of
        None \<Rightarrow> (Status 404, txs, [])
      | Some tx \<Rightarrow>
          if txn_payerId tx = user_sub req then
            start_request_finish txs clients req tx
              (no_updates\<lparr>u_payerStartRequested := Some True\<rparr>) ''payer''
          else if txn_payeeId tx = user_sub req then
            start_request_finish txs clients req tx
              (no_updates\<lparr>u_payeeStartRequested := Some True\<rparr>) ''payee''
          else (Status 403, txs, []))"

section \<open>PATCH /api/transactions/:id/confirm\<close>

text \<open>\<open>now\<close> is the value of \<open>new Date()\<close> at the time of the call.\<close>

definition confirm_finish ::
  "transaction list \<Rightarrow> timestamp \<Rightarrow> transaction \<Rightarrow> txn_updates \<Rightarrow>
   transaction option response \<times> transaction list" where
  "confirm_finish txs now tx updates0 =
     (let updates =
            (if (truthy (u_payerConfirmed updates0) \<and> truthy (payeeConfirmed tx)) \<or>
                (truthy (u_payeeConfirmed updates0) \<and> truthy (payerConfirmed tx))
             then updates0\<lparr>u_status := Some ''completed'', u_completedAt := Some now\<rparr>
             else updates0);
          (updatedTransaction, txs') = updateTransaction txs (txn_id tx) updates
      in (Json updatedTransaction, txs'))"

definition confirm_route ::
  "transaction list \<Rightarrow> timestamp \<Rightarrow> txn_body request \<Rightarrow>
   transaction option response \<times> transaction list" where
  "confirm_route txs now req =
     (case getTaskTransaction txs (body_taskId (body req)) of
        None \<Rightarrow> (Status 404, txs)
      | Some tx \<Rightarrow>
          if txn_payerId tx = user_sub req then
            confirm_finish txs now tx (no_updates\<lparr>u_payerConfirmed := Some True\<rparr>)
          else if txn_payeeId tx = user_sub req then
            confirm_finish txs now tx (no_updates\<lparr>u_payeeConfirmed := Some True\<rparr>)
          else (Status 403, txs))"

section \<open>Sequences of calls\<close>


text \<open>A sequence of calls, each with its fresh key and its time, on the tables the last one left.\<close>

fun createRatings ::
  "user list \<Rightarrow> task list \<Rightarrow> rating list \<Rightarrow> (string \<times> timestamp \<times> insert_rating) list \<Rightarrow>
   rating list \<times> user list" where
  "createRatings users tasks ratings [] = (ratings, users)"
| "createRatings users tasks ratings ((newId, now, ins) # calls) =
     (case createRating users tasks ratings newId now ins of
        (result, ratings', users') \<Rightarrow> createRatings users' tasks ratings' calls)"

section \<open>Predicates and measures of the properties\<close>


text \<open>
  The constraints of the tasks table on a request body: the values are accepted, no column
  that is \<open>NOT NULL\<close> is set to \<open>null\<close>, and the users it names exist.
\<close>

definition patch_constraints_ok :: "user list \<Rightarrow> task_patch \<Rightarrow> bool" where
  "patch_constraints_ok users p =
     (patch_values_ok p \<and> fits_varchar255 (p_title p) \<and> patch_not_null_ok p \<and>
      patch_refs_ok users p)"

text \<open>The scores that a user has received, in the order of the table.\<close>

definition scoresOf :: "rating list \<Rightarrow> string \<Rightarrow> int list" where
  "scoresOf ratings u = map rating (filter (\<lambda>r. ratedId r = u) ratings)"

text \<open>
  The arithmetic mean of a list of scores, and the two readings of "the mean rounded to 2
  decimal places" that fix what happens at a tie: half up, the usual rule, and half to even,
  the rule of IEEE arithmetic. Both count hundredths.
\<close>

definition meanOf :: "int list \<Rightarrow> rat" where
  "meanOf scores = of_int (sum_list scores) / of_nat (length scores)"

definition mean_half_up :: "int list \<Rightarrow> int" where
  "mean_half_up scores = \<lfloor>meanOf scores * 100 + 1 / 2\<rfloor>"

definition mean_half_even :: "int list \<Rightarrow> int" where
  "mean_half_even scores = round_half_even (meanOf scores * 100)"

section \<open>Example data\<close>

text \<open>Three users, a task of \<open>alice\<close> that \<open>bob\<close> has accepted, and its transaction.\<close>

definition ex_users :: "user list" where
  "ex_users =
     [\<lparr>user_id = ''alice'', user_rating = Some 0, completedTasks = Some 0, helpGiven = Some 0, helpReceived = Some 0\<rparr>,
      \<lparr>user_id = ''bob'', user_rating = Some 0, completedTasks = Some 0, helpGiven = Some 0, helpReceived = Some 0\<rparr>,
      \<lparr>user_id = ''carol'', user_rating = Some 0, completedTasks = Some 0, helpGiven = Some 0, helpReceived = Some 0\<rparr>]"

definition ex_task :: task where
  "ex_task =
     \<lparr>task_id = ''t1'', title = ''move a sofa'', description = ''third floor'', category = ''moving'',
      reward = ''15000.00'', timeEstimate = None, location = None, task_status = Some ''accepted'',
      task_authorId = ''alice'', task_helperId = Some ''bob'', task_communityId = ''c1'',
      task_createdAt = Some 1, task_updatedAt = Some 2\<rparr>"

definition ex_open_task :: task where
  "ex_open_task = ex_task\<lparr>task_status := Some ''open'', task_helperId := None\<rparr>"

definition ex_completed_task :: task where
  "ex_completed_task = ex_task\<lparr>task_status := Some ''completed''\<rparr>"

definition ex_txn :: transaction where
  "ex_txn =
     \<lparr>txn_id = ''x1'', txn_taskId = ''t1'', txn_payerId = ''alice'', txn_payeeId = ''bob'',
      txn_amount = ''15000.00'', txn_status = Some ''pending'',
      payerStartRequested = Some False, payeeStartRequested = Some False,
      payerConfirmed = Some False, payeeConfirmed = Some False,
      txn_createdAt = Some 3, completedAt = None\<rparr>"

definition ex_txn2 :: transaction where
  "ex_txn2 = ex_txn\<lparr>txn_id := ''x2'', txn_taskId := ''t2'', txn_payerId := ''carol''\<rparr>"


text \<open>A handshake request of user \<open>u\<close> for task \<open>t1\<close>.\<close>

definition as_user :: "string \<Rightarrow> txn_body request" where
  "as_user u = \<lparr>user_sub = u, params_id = ''x1'', body = \<lparr>body_taskId = ''t1''\<rparr>\<rparr>"



text \<open>
  Bodies of \<open>PATCH /api/tasks/t1\<close>: the author sets the status back to \<open>open\<close>, and user
  \<open>u\<close> sends what the client sends for an Accept.
\<close>

definition ex_reopen :: "task_patch request" where
  "ex_reopen =
     \<lparr>user_sub = ''alice'', params_id = ''t1'', body = no_patch\<lparr>p_status := Some (Some ''open'')\<rparr>\<rparr>"

definition ex_accept :: "string \<Rightarrow> task_patch request" where
  "ex_accept u =
     \<lparr>user_sub = u, params_id = ''t1'',
      body = no_patch\<lparr>p_helperId := Some (Some u), p_status := Some (Some ''accepted'')\<rparr>\<rparr>"

text \<open>
  The same with one more key that PostgreSQL refuses: a reward that is no number, a category
  with the character NUL, and a title of 256 letters.
\<close>

definition ex_accept_reward :: "task_patch request" where
  "ex_accept_reward =
     (ex_accept ''bob'')\<lparr>body := (body (ex_accept ''bob''))\<lparr>p_reward := Some (Some NotNumeric)\<rparr>\<rparr>"

definition ex_accept_nul :: "task_patch request" where
  "ex_accept_nul =
     (ex_accept ''bob'')\<lparr>body := (body (ex_accept ''bob''))\<lparr>p_category := Some (Some [CHR 0x00])\<rparr>\<rparr>"

definition ex_accept_title :: "task_patch request" where
  "ex_accept_title =
     (ex_accept ''bob'')\<lparr>body := (body (ex_accept ''bob''))
        \<lparr>p_title := Some (Some (replicate 256 CHR ''a''))\<rparr>\<rparr>"

definition ex_conv :: conversation where
  "ex_conv =
     \<lparr>conv_id = ''v1'', conv_taskId = ''t1'', conv_authorId = ''alice'',
      conv_participantId = ''carol'', lastMessageAt = None, conv_createdAt = Some 4\<rparr>"

text \<open>Calls that rate user \<open>u\<close> with the given scores, on task \<open>t1\<close> by \<open>alice\<close>.\<close>

definition ex_calls :: "string \<Rightarrow> int list \<Rightarrow> (string \<times> timestamp \<times> insert_rating) list" where
  "ex_calls u scores =
     map (\<lambda>(i, s). (replicate (Suc i) CHR ''r'', i,
            \<lparr>ins_rating_taskId = ''t1'', ins_raterId = ''alice'', ins_ratedId = u,
             ins_rating = s, ins_comment = None\<rparr>))
         (zip [0..<length scores] scores)"

section \<open>Updating a transaction\<close>

lemma set_txn_keys [simp]:
  "txn_id (set_txn u t) = txn_id t"
  "txn_taskId (set_txn u t) = txn_taskId t"
  "txn_payerId (set_txn u t) = txn_payerId t"
  "txn_payeeId (set_txn u t) = txn_payeeId t"
  "txn_amount (set_txn u t) = txn_amount t"
  by (simp_all add: set_txn_def)

lemma find_Some_row: "find P xs = Some x \<Longrightarrow> x \<in> set xs \<and> P x"
  by (induction xs) (auto split: if_splits)

text \<open>
  With a primary key, an update by the id of a row of the table rewrites that row and no
  other: the table afterwards holds the rewritten row in place of the old one, and every other
  row as it was.
\<close>

lemma filter_by_key:
  assumes "distinct (map txn_id txs)" and "tx \<in> set txs"
  shows "filter (\<lambda>t. txn_id t = txn_id tx) txs = [tx]"
proof -
  have none: "filter (\<lambda>t. txn_id t = i) xs = []" if "i \<notin> set (map txn_id xs)" for i xs
    using that by (induction xs) auto
  show ?thesis using assms
  proof (induction txs)
    case Nil
    then show ?case by simp
  next
    case (Cons a txs)
    show ?case
    proof (cases "a = tx")
      case True
      then show ?thesis using Cons.prems none[of "txn_id tx" txs] by simp
    next
      case False
      then have "tx \<in> set txs" using Cons.prems by simp
      moreover from this have "txn_id a \<noteq> txn_id tx" using Cons.prems by force
      ultimately show ?thesis using Cons by simp
    qed
  qed
qed

lemma mset_without_row:
  assumes "distinct (map txn_id txs)" and "tx \<in> set txs"
  shows "mset (filter (\<lambda>t. txn_id t \<noteq> txn_id tx) txs) = mset txs - {#tx#}"
proof -
  define others where "others = mset (filter (\<lambda>t. txn_id t \<noteq> txn_id tx) txs)"
  have "mset txs = mset (filter (\<lambda>t. txn_id t = txn_id tx) txs) +
                   mset (filter (\<lambda>t. txn_id t \<noteq> txn_id tx) txs)"
    by (induction txs) auto
  then have "mset txs = add_mset tx others"
    by (simp add: filter_by_key[OF assms] others_def)
  then have "mset txs - {#tx#} = others" by simp
  then show ?thesis by (simp add: others_def)
qed

lemma updateTransaction_row:
  assumes "distinct (map txn_id txs)" and "tx \<in> set txs"
  shows "updateTransaction txs (txn_id tx) u =
           (Some (set_txn u tx), filter (\<lambda>t. txn_id t \<noteq> txn_id tx) txs @ [set_txn u tx])"
  by (simp add: updateTransaction_def filter_by_key[OF assms])

lemma updateTransaction_mset:
  assumes "distinct (map txn_id txs)" and "tx \<in> set txs"
  shows "mset (snd (updateTransaction txs (txn_id tx) u)) =
           add_mset (set_txn u tx) (mset txs - {#tx#})"
  using mset_without_row[OF assms] by (simp add: updateTransaction_row[OF assms])




section \<open>The start handshake\<close>

lemma start_request_route_found:
  assumes "find (\<lambda>t. txn_taskId t = body_taskId (body req)) txs = Some tx"
  shows "start_request_route txs clients req =
     (if txn_payerId tx = user_sub req then
        start_request_finish txs clients req tx (no_updates\<lparr>u_payerStartRequested := Some True\<rparr>) ''payer''
      else if txn_payeeId tx = user_sub req then
        start_request_finish txs clients req tx (no_updates\<lparr>u_payeeStartRequested := Some True\<rparr>) ''payee''
      else (Status 403, txs, []))"
  using assms by (simp add: start_request_route_def getTaskTransaction_def)

lemma start_request_finish_row:
  assumes pk: "distinct (map txn_id txs)" and mem: "tx \<in> set txs"
  shows "start_request_finish txs clients req tx u0 role =
     (Json (Some (set_txn (u0\<lparr>u_status := Some (if (truthy (u_payerStartRequested u0) \<and> truthy (payeeStartRequested tx)) \<or>
                (truthy (u_payeeStartRequested u0) \<and> truthy (payerStartRequested tx))
             then ''in_progress'' else ''start_requested'')\<rparr>) tx)),
      filter (\<lambda>t. txn_id t \<noteq> txn_id tx) txs @
        [set_txn (u0\<lparr>u_status := Some (if (truthy (u_payerStartRequested u0) \<and> truthy (payeeStartRequested tx)) \<or>
                (truthy (u_payeeStartRequested u0) \<and> truthy (payerStartRequested tx))
             then ''in_progress'' else ''start_requested'')\<rparr>) tx],
      broadcast clients
        \<lparr>ev_type = ''transaction_start_request'', ev_taskId = body_taskId (body req),
         requestedBy = user_sub req,
         otherUserId = (if role = ''payer'' then txn_payeeId tx else txn_payerId tx),
         bothRequested = ((truthy (u_payerStartRequested u0) \<and> truthy (payeeStartRequested tx)) \<or>
                (truthy (u_payeeStartRequested u0) \<and> truthy (payerStartRequested tx)))\<rparr>)"
  by (auto simp add: start_request_finish_def updateTransaction_row[OF pk mem] Let_def)

lemma start_request_payer:
  assumes found: "find (\<lambda>t. txn_taskId t = body_taskId (body req)) txs = Some tx"
    and pk: "distinct (map txn_id txs)"
    and actor: "user_sub req = txn_payerId tx"
  shows "fst (start_request_route txs clients req) =
           Json (Some (tx\<lparr>payerStartRequested := Some True,
                          txn_status := Some (if payeeStartRequested tx = Some True then ''in_progress''
                                              else ''start_requested'')\<rparr>))"
    and "mset (fst (snd (start_request_route txs clients req))) =
           add_mset (tx\<lparr>payerStartRequested := Some True,
                        txn_status := Some (if payeeStartRequested tx = Some True then ''in_progress''
                                            else ''start_requested'')\<rparr>) (mset txs - {#tx#})"
    and "snd (snd (start_request_route txs clients req)) =
           map (\<lambda>c. (fst c,
                  \<lparr>ev_type = ''transaction_start_request'', ev_taskId = body_taskId (body req),
                   requestedBy = user_sub req, otherUserId = txn_payeeId tx,
                   bothRequested = (payeeStartRequested tx = Some True)\<rparr>))
               (filter (\<lambda>c. snd c = OPEN) clients)"
proof -
  have mem: "tx \<in> set txs" using find_Some_row[OF found] by simp
  show "fst (start_request_route txs clients req) =
           Json (Some (tx\<lparr>payerStartRequested := Some True,
                          txn_status := Some (if payeeStartRequested tx = Some True then ''in_progress''
                                              else ''start_requested'')\<rparr>))"
    using actor
    by (simp add: start_request_route_found[OF found] start_request_finish_row[OF pk mem]
        truthy_def no_updates_def set_txn_def set_col_def)
  show "mset (fst (snd (start_request_route txs clients req))) =
           add_mset (tx\<lparr>payerStartRequested := Some True,
                        txn_status := Some (if payeeStartRequested tx = Some True then ''in_progress''
                                            else ''start_requested'')\<rparr>) (mset txs - {#tx#})"
    using actor mset_without_row[OF pk mem]
    by (simp add: start_request_route_found[OF found] start_request_finish_row[OF pk mem]
        truthy_def no_updates_def set_txn_def set_col_def)
  show "snd (snd (start_request_route txs clients req)) =
           map (\<lambda>c. (fst c,
                  \<lparr>ev_type = ''transaction_start_request'', ev_taskId = body_taskId (body req),
                   requestedBy = user_sub req, otherUserId = txn_payeeId tx,
                   bothRequested = (payeeStartRequested tx = Some True)\<rparr>))
               (filter (\<lambda>c. snd c = OPEN) clients)"
    using actor
    by (simp add: start_request_route_found[OF found] start_request_finish_row[OF pk mem]
        truthy_def no_updates_def broadcast_def)
qed

lemma start_request_payee:
  assumes found: "find (\<lambda>t. txn_taskId t = body_taskId (body req)) txs = Some tx"
    and pk: "distinct (map txn_id txs)"
    and actor: "user_sub req = txn_payeeId tx" and npayer: "user_sub req \<noteq> txn_payerId tx"
  shows "fst (start_request_route txs clients req) =
           Json (Some (tx\<lparr>payeeStartRequested := Some True,
                          txn_status := Some (if payerStartRequested tx = Some True then ''in_progress''
                                              else ''start_requested'')\<rparr>))"
    and "mset (fst (snd (start_request_route txs clients req))) =
           add_mset (tx\<lparr>payeeStartRequested := Some True,
                        txn_status := Some (if payerStartRequested tx = Some True then ''in_progress''
                                            else ''start_requested'')\<rparr>) (mset txs - {#tx#})"
    and "snd (snd (start_request_route txs clients req)) =
           map (\<lambda>c. (fst c,
                  \<lparr>ev_type = ''transaction_start_request'', ev_taskId = body_taskId (body req),
                   requestedBy = user_sub req, otherUserId = txn_payerId tx,
                   bothRequested = (payerStartRequested tx = Some True)\<rparr>))
               (filter (\<lambda>c. snd c = OPEN) clients)"
proof -
  have mem: "tx \<in> set txs" using find_Some_row[OF found] by simp
  show "fst (start_request_route txs clients req) =
           Json (Some (tx\<lparr>payeeStartRequested := Some True,
                          txn_status := Some (if payerStartRequested tx = Some True then ''in_progress''
                                              else ''start_requested'')\<rparr>))"
    using actor npayer
    by (simp add: start_request_route_found[OF found] start_request_finish_row[OF pk mem]
        truthy_def no_updates_def set_txn_def set_col_def)
  show "mset (fst (snd (start_request_route txs clients req))) =
           add_mset (tx\<lparr>payeeStartRequested := Some True,
                        txn_status := Some (if payerStartRequested tx = Some True then ''in_progress''
                                            else ''start_requested'')\<rparr>) (mset txs - {#tx#})"
    using actor npayer mset_without_row[OF pk mem]
    by (simp add: start_request_route_found[OF found] start_request_finish_row[OF pk mem]
        truthy_def no_updates_def set_txn_def set_col_def)
  show "snd (snd (start_request_route txs clients req)) =
           map (\<lambda>c. (fst c,
                  \<lparr>ev_type = ''transaction_start_request'', ev_taskId = body_taskId (body req),
                   requestedBy = user_sub req, otherUserId = txn_payerId tx,
                   bothRequested = (payerStartRequested tx = Some True)\<rparr>))
               (filter (\<lambda>c. snd c = OPEN) clients)"
    using actor npayer
    by (simp add: start_request_route_found[OF found] start_request_finish_row[OF pk mem]
        truthy_def no_updates_def broadcast_def)
qed




section \<open>The confirmation handshake\<close>

lemma confirm_route_found:
  assumes "find (\<lambda>t. txn_taskId t = body_taskId (body req)) txs = Some tx"
  shows "confirm_route txs now req =
     (if txn_payerId tx = user_sub req then
        confirm_finish txs now tx (no_updates\<lparr>u_payerConfirmed := Some True\<rparr>)
      else if txn_payeeId tx = user_sub req then
        confirm_finish txs now tx (no_updates\<lparr>u_payeeConfirmed := Some True\<rparr>)
      else (Status 403, txs))"
  using assms by (simp add: confirm_route_def getTaskTransaction_def)

lemma confirm_finish_row:
  assumes pk: "distinct (map txn_id txs)" and mem: "tx \<in> set txs"
  shows "confirm_finish txs now tx u0 =
     (Json (Some (set_txn (if (truthy (u_payerConfirmed u0) \<and> truthy (payeeConfirmed tx)) \<or>
                (truthy (u_payeeConfirmed u0) \<and> truthy (payerConfirmed tx))
             then u0\<lparr>u_status := Some ''completed'', u_completedAt := Some now\<rparr>
             else u0) tx)),
      filter (\<lambda>t. txn_id t \<noteq> txn_id tx) txs @
        [set_txn (if (truthy (u_payerConfirmed u0) \<and> truthy (payeeConfirmed tx)) \<or>
                (truthy (u_payeeConfirmed u0) \<and> truthy (payerConfirmed tx))
             then u0\<lparr>u_status := Some ''completed'', u_completedAt := Some now\<rparr>
             else u0) tx])"
  by (auto simp add: confirm_finish_def updateTransaction_row[OF pk mem] Let_def)

lemma confirm_payer:
  assumes found: "find (\<lambda>t. txn_taskId t = body_taskId (body req)) txs = Some tx"
    and pk: "distinct (map txn_id txs)"
    and actor: "user_sub req = txn_payerId tx"
  shows "fst (confirm_route txs now req) =
           Json (Some (if payeeConfirmed tx = Some True
                       then tx\<lparr>payerConfirmed := Some True, txn_status := Some ''completed'',
                               completedAt := Some now\<rparr>
                       else tx\<lparr>payerConfirmed := Some True\<rparr>)) \<and>
         mset (snd (confirm_route txs now req)) =
           add_mset (if payeeConfirmed tx = Some True
                     then tx\<lparr>payerConfirmed := Some True, txn_status := Some ''completed'',
                             completedAt := Some now\<rparr>
                     else tx\<lparr>payerConfirmed := Some True\<rparr>) (mset txs - {#tx#})"
proof -
  have mem: "tx \<in> set txs" using find_Some_row[OF found] by simp
  show ?thesis
    using actor mset_without_row[OF pk mem]
    by (simp add: confirm_route_found[OF found] confirm_finish_row[OF pk mem]
        truthy_def no_updates_def set_txn_def set_col_def)
qed

lemma confirm_payee:
  assumes found: "find (\<lambda>t. txn_taskId t = body_taskId (body req)) txs = Some tx"
    and pk: "distinct (map txn_id txs)"
    and actor: "user_sub req = txn_payeeId tx" and npayer: "user_sub req \<noteq> txn_payerId tx"
  shows "fst (confirm_route txs now req) =
           Json (Some (if payerConfirmed tx = Some True
                       then tx\<lparr>payeeConfirmed := Some True, txn_status := Some ''completed'',
                               completedAt := Some now\<rparr>
                       else tx\<lparr>payeeConfirmed := Some True\<rparr>)) \<and>
         mset (snd (confirm_route txs now req)) =
           add_mset (if payerConfirmed tx = Some True
                     then tx\<lparr>payeeConfirmed := Some True, txn_status := Some ''completed'',
                             completedAt := Some now\<rparr>
                     else tx\<lparr>payeeConfirmed := Some True\<rparr>) (mset txs - {#tx#})"
proof -
  have mem: "tx \<in> set txs" using find_Some_row[OF found] by simp
  show ?thesis
    using actor npayer mset_without_row[OF pk mem]
    by (simp add: confirm_route_found[OF found] confirm_finish_row[OF pk mem]
        truthy_def no_updates_def set_txn_def set_col_def)
qed

subsection \<open>Reachable tables\<close>














subsection \<open>The path parameter of the handshake routes\<close>

lemma start_request_path_id:
  "start_request_route txs clients (req\<lparr>params_id := p\<rparr>) = start_request_route txs clients req"
  by (simp add: start_request_route_def start_request_finish_def
      cong: option.case_cong if_cong)

lemma confirm_path_id:
  "confirm_route txs now (req\<lparr>params_id := p\<rparr>) = confirm_route txs now req"
  by (simp add: confirm_route_def cong: option.case_cong if_cong)

lemma start_request_row:
  assumes found: "find (\<lambda>t. txn_taskId t = body_taskId (body req)) txs = Some tx"
    and pk: "distinct (map txn_id txs)"
    and actor: "user_sub req = txn_payerId tx \<or> user_sub req = txn_payeeId tx"
  shows "\<exists>tx'. fst (start_request_route txs clients req) = Json (Some tx') \<and>
           mset (fst (snd (start_request_route txs clients req))) = add_mset tx' (mset txs - {#tx#}) \<and>
           txn_id tx' = txn_id tx \<and> txn_taskId tx' = body_taskId (body req) \<and>
           (user_sub req = txn_payerId tx \<and> payerStartRequested tx' = Some True \<or>
            user_sub req = txn_payeeId tx \<and> payeeStartRequested tx' = Some True)"
proof (cases "user_sub req = txn_payerId tx")
  case True
  from find_Some_row[OF found] start_request_payer[OF found pk True, of clients] True
  show ?thesis by (intro exI[of _ "tx\<lparr>payerStartRequested := Some True,
        txn_status := Some (if payeeStartRequested tx = Some True then ''in_progress''
                            else ''start_requested'')\<rparr>"]) simp
next
  case False
  then have p: "user_sub req = txn_payeeId tx" using actor by simp
  from find_Some_row[OF found] start_request_payee[OF found pk p False, of clients] p
  show ?thesis by (intro exI[of _ "tx\<lparr>payeeStartRequested := Some True,
        txn_status := Some (if payerStartRequested tx = Some True then ''in_progress''
                            else ''start_requested'')\<rparr>"]) simp
qed

lemma confirm_row:
  assumes found: "find (\<lambda>t. txn_taskId t = body_taskId (body req)) txs = Some tx"
    and pk: "distinct (map txn_id txs)"
    and actor: "user_sub req = txn_payerId tx \<or> user_sub req = txn_payeeId tx"
  shows "\<exists>tx'. fst (confirm_route txs now req) = Json (Some tx') \<and>
           mset (snd (confirm_route txs now req)) = add_mset tx' (mset txs - {#tx#}) \<and>
           txn_id tx' = txn_id tx \<and> txn_taskId tx' = body_taskId (body req) \<and>
           (user_sub req = txn_payerId tx \<and> payerConfirmed tx' = Some True \<or>
            user_sub req = txn_payeeId tx \<and> payeeConfirmed tx' = Some True)"
proof (cases "user_sub req = txn_payerId tx")
  case True
  from find_Some_row[OF found] confirm_payer[OF found pk True, of now] True
  show ?thesis by (intro exI[of _ "if payeeConfirmed tx = Some True
                     then tx\<lparr>payerConfirmed := Some True, txn_status := Some ''completed'',
                             completedAt := Some now\<rparr>
                     else tx\<lparr>payerConfirmed := Some True\<rparr>"]) simp
next
  case False
  then have p: "user_sub req = txn_payeeId tx" using actor by simp
  from find_Some_row[OF found] confirm_payee[OF found pk p False, of now] p
  show ?thesis by (intro exI[of _ "if payerConfirmed tx = Some True
                     then tx\<lparr>payeeConfirmed := Some True, txn_status := Some ''completed'',
                             completedAt := Some now\<rparr>
                     else tx\<lparr>payeeConfirmed := Some True\<rparr>"]) simp
qed

text \<open>
  C10. Both handshake routes give the same response, table and messages whatever the path
  parameter \<open>:id\<close> is. The transaction that is read is the first row whose \<open>taskId\<close> is the
  one of the body, and that row is the one that is updated, also when the path names another
  transaction: the answer is a row with the same id and with the task of the body, in which
  the flag of the caller is true, and the table holds it in place of the row that was read,
  every other row being as it was.
\<close>

theorem handshake_routes_ignore_path_id:
  "start_request_route txs clients (req\<lparr>params_id := p\<rparr>) = start_request_route txs clients req \<and>
   confirm_route txs now (req\<lparr>params_id := p\<rparr>) = confirm_route txs now req \<and>
   (find (\<lambda>t. txn_taskId t = body_taskId (body req)) txs = Some tx \<and>
    distinct (map txn_id txs) \<and>
    (user_sub req = txn_payerId tx \<or> user_sub req = txn_payeeId tx) \<longrightarrow>
      txn_taskId tx = body_taskId (body req) \<and>
      (\<exists>tx'. fst (start_request_route txs clients (req\<lparr>params_id := p\<rparr>)) = Json (Some tx') \<and>
         mset (fst (snd (start_request_route txs clients (req\<lparr>params_id := p\<rparr>)))) =
           add_mset tx' (mset txs - {#tx#}) \<and>
         txn_id tx' = txn_id tx \<and> txn_taskId tx' = body_taskId (body req) \<and>
         (user_sub req = txn_payerId tx \<and> payerStartRequested tx' = Some True \<or>
          user_sub req = txn_payeeId tx \<and> payeeStartRequested tx' = Some True)) \<and>
      (\<exists>tx'. fst (confirm_route txs now (req\<lparr>params_id := p\<rparr>)) = Json (Some tx') \<and>
         mset (snd (confirm_route txs now (req\<lparr>params_id := p\<rparr>))) =
           add_mset tx' (mset txs - {#tx#}) \<and>
         txn_id tx' = txn_id tx \<and> txn_taskId tx' = body_taskId (body req) \<and>
         (user_sub req = txn_payerId tx \<and> payerConfirmed tx' = Some True \<or>
          user_sub req = txn_payeeId tx \<and> payeeConfirmed tx' = Some True)))"
  unfolding start_request_path_id confirm_path_id
  using start_request_row[of req txs tx clients] confirm_row[of req txs tx now]
    find_Some_row[of "\<lambda>t. txn_taskId t = body_taskId (body req)" txs tx]
  by blast

theorem handshake_routes_ignore_path_id_witness:
  "find (\<lambda>t. txn_taskId t = ''t1'') [ex_txn2, ex_txn] = Some ex_txn \<and>
   distinct (map txn_id [ex_txn2, ex_txn]) \<and>
   txn_id ex_txn2 = ''x2'' \<and> txn_taskId ex_txn2 = ''t2'' \<and> txn_taskId ex_txn = ''t1'' \<and>
   fst (start_request_route [ex_txn2, ex_txn] []
      \<lparr>user_sub = ''alice'', params_id = ''x2'', body = \<lparr>body_taskId = ''t1''\<rparr>\<rparr>) =
     Json (Some (ex_txn\<lparr>payerStartRequested := Some True, txn_status := Some ''start_requested''\<rparr>)) \<and>
   mset (fst (snd (start_request_route [ex_txn2, ex_txn] []
      \<lparr>user_sub = ''alice'', params_id = ''x2'', body = \<lparr>body_taskId = ''t1''\<rparr>\<rparr>))) =
     {#ex_txn2, ex_txn\<lparr>payerStartRequested := Some True, txn_status := Some ''start_requested''\<rparr>#} \<and>
   fst (confirm_route [ex_txn2, ex_txn] 9
      \<lparr>user_sub = ''alice'', params_id = ''x2'', body = \<lparr>body_taskId = ''t1''\<rparr>\<rparr>) =
     Json (Some (ex_txn\<lparr>payerConfirmed := Some True\<rparr>)) \<and>
   mset (snd (confirm_route [ex_txn2, ex_txn] 9
      \<lparr>user_sub = ''alice'', params_id = ''x2'', body = \<lparr>body_taskId = ''t1''\<rparr>\<rparr>)) =
     {#ex_txn2, ex_txn\<lparr>payerConfirmed := Some True\<rparr>#}"
proof -
  have f: "find (\<lambda>t. txn_taskId t = body_taskId (body (as_user ''alice''))) [ex_txn2, ex_txn] = Some ex_txn \<and>
     distinct (map txn_id [ex_txn2, ex_txn]) \<and>
     (user_sub (as_user ''alice'') = txn_payerId ex_txn \<or> user_sub (as_user ''alice'') = txn_payeeId ex_txn)"
    by (simp add: ex_txn_def ex_txn2_def as_user_def)
  note t = handshake_routes_ignore_path_id[where txs = "[ex_txn2, ex_txn]" and clients = "[]"
      and req = "as_user ''alice''" and p = "''x2''" and now = 9 and tx = ex_txn]
  from t f obtain s where s: "fst (start_request_route [ex_txn2, ex_txn] []
        ((as_user ''alice'')\<lparr>params_id := ''x2''\<rparr>)) = Json (Some s)"
      "mset (fst (snd (start_request_route [ex_txn2, ex_txn] []
        ((as_user ''alice'')\<lparr>params_id := ''x2''\<rparr>)))) = add_mset s (mset [ex_txn2, ex_txn] - {#ex_txn#})"
    by blast
  from t f obtain c where c: "fst (confirm_route [ex_txn2, ex_txn] 9
        ((as_user ''alice'')\<lparr>params_id := ''x2''\<rparr>)) = Json (Some c)"
      "mset (snd (confirm_route [ex_txn2, ex_txn] 9
        ((as_user ''alice'')\<lparr>params_id := ''x2''\<rparr>))) = add_mset c (mset [ex_txn2, ex_txn] - {#ex_txn#})"
    by blast
  have sv: "fst (start_request_route [ex_txn2, ex_txn] []
        ((as_user ''alice'')\<lparr>params_id := ''x2''\<rparr>)) =
      Json (Some (ex_txn\<lparr>payerStartRequested := Some True, txn_status := Some ''start_requested''\<rparr>))"
    by (simp add: start_request_route_def start_request_finish_def getTaskTransaction_def
        updateTransaction_def set_txn_def set_col_def truthy_def no_updates_def Let_def
        ex_txn_def ex_txn2_def as_user_def)
  have cv: "fst (confirm_route [ex_txn2, ex_txn] 9 ((as_user ''alice'')\<lparr>params_id := ''x2''\<rparr>)) =
      Json (Some (ex_txn\<lparr>payerConfirmed := Some True\<rparr>))"
    by (simp add: confirm_route_def confirm_finish_def getTaskTransaction_def
        updateTransaction_def set_txn_def set_col_def truthy_def no_updates_def Let_def
        ex_txn_def ex_txn2_def as_user_def)
  have s': "s = ex_txn\<lparr>payerStartRequested := Some True, txn_status := Some ''start_requested''\<rparr>"
    using s(1) sv by simp
  have c': "c = ex_txn\<lparr>payerConfirmed := Some True\<rparr>"
    using c(1) cv by simp
  have k: "mset [ex_txn2, ex_txn] - {#ex_txn#} = {#ex_txn2#}" by simp
  show ?thesis
    using f sv cv s(2) c(2) unfolding s' c' k
    by (simp add: as_user_def ex_txn2_def ex_txn_def)
qed

section \<open>Creating a transaction\<close>

lemma getTask_found:
  "getTask tasks i = Some t \<Longrightarrow> t \<in> set tasks \<and> task_id t = i"
  unfolding getTask_def by (induction tasks) (auto split: if_splits)

lemma create_transaction_route_ok:
  assumes found: "getTask tasks (params_id req) = Some t"
    and helper: "task_helperId t = Some h"
    and fresh: "newId \<notin> set (map txn_id txs)"
    and refs: "task_authorId t \<in> set (map user_id users)" "h \<in> set (map user_id users)"
  shows "create_transaction_route users tasks txs newId now req =
     (Json \<lparr>txn_id = newId, txn_taskId = params_id req, txn_payerId = task_authorId t,
            txn_payeeId = h, txn_amount = reward t, txn_status = Some ''pending'',
            payerStartRequested = Some False, payeeStartRequested = Some False,
            payerConfirmed = Some False, payeeConfirmed = Some False,
            txn_createdAt = Some now, completedAt = None\<rparr>,
      txs @ [\<lparr>txn_id = newId, txn_taskId = params_id req, txn_payerId = task_authorId t,
            txn_payeeId = h, txn_amount = reward t, txn_status = Some ''pending'',
            payerStartRequested = Some False, payeeStartRequested = Some False,
            payerConfirmed = Some False, payeeConfirmed = Some False,
            txn_createdAt = Some now, completedAt = None\<rparr>])"
proof -
  from getTask_found[OF found] have "params_id req \<in> set (map task_id tasks)" by force
  then show ?thesis
    using found helper fresh refs
    by (simp add: create_transaction_route_def createTransaction_def Let_def)
qed

lemma create_transaction_route_no_helper:
  assumes found: "getTask tasks (params_id req) = Some t"
    and helper: "task_helperId t = None"
  shows "create_transaction_route users tasks txs newId now req = (Status 500, txs)"
  using assms by (simp add: create_transaction_route_def createTransaction_def)

text \<open>
  C7 (as amended). For an existing task whose \<open>helperId\<close> is set, and whoever the caller is,
  Create inserts one transaction with \<open>payerId\<close> the author of the task, \<open>payeeId\<close> its
  helper, \<open>amount\<close> its reward, status \<open>pending\<close> and the four flags false, and answers with
  that row (the new key being unused, and author and helper being users, as the references of
  the tasks table make them). For a task without a helper the insertion violates
  \<open>NOT NULL\<close>: the answer is status 500 and no row is added.
\<close>

theorem create_transaction_copies_task:
  "(getTask tasks (params_id req) = Some t \<and> task_helperId t = Some h \<and>
    newId \<notin> set (map txn_id txs) \<and>
    task_authorId t \<in> set (map user_id users) \<and> h \<in> set (map user_id users) \<longrightarrow>
      create_transaction_route users tasks txs newId now req =
        (Json \<lparr>txn_id = newId, txn_taskId = params_id req, txn_payerId = task_authorId t,
               txn_payeeId = h, txn_amount = reward t, txn_status = Some ''pending'',
               payerStartRequested = Some False, payeeStartRequested = Some False,
               payerConfirmed = Some False, payeeConfirmed = Some False,
               txn_createdAt = Some now, completedAt = None\<rparr>,
         txs @ [\<lparr>txn_id = newId, txn_taskId = params_id req, txn_payerId = task_authorId t,
               txn_payeeId = h, txn_amount = reward t, txn_status = Some ''pending'',
               payerStartRequested = Some False, payeeStartRequested = Some False,
               payerConfirmed = Some False, payeeConfirmed = Some False,
               txn_createdAt = Some now, completedAt = None\<rparr>])) \<and>
   (getTask tasks (params_id req) = Some t \<and> task_helperId t = None \<longrightarrow>
      create_transaction_route users tasks txs newId now req = (Status 500, txs))"
  using create_transaction_route_ok[of tasks req t h newId txs users now]
    create_transaction_route_no_helper[of tasks req t users txs newId now]
  by blast

theorem create_transaction_copies_task_witness:
  "getTask [ex_task] ''t1'' = Some ex_task \<and> task_helperId ex_task = Some ''bob'' \<and>
   create_transaction_route ex_users [ex_task] [] ''x1'' 3
      \<lparr>user_sub = ''alice'', params_id = ''t1'', body = ()\<rparr> = (Json ex_txn, [ex_txn]) \<and>
   getTask [ex_task\<lparr>task_helperId := None\<rparr>] ''t1'' = Some (ex_task\<lparr>task_helperId := None\<rparr>) \<and>
   create_transaction_route ex_users [ex_task\<lparr>task_helperId := None\<rparr>] [ex_txn2] ''x1'' 3
      \<lparr>user_sub = ''alice'', params_id = ''t1'', body = ()\<rparr> = (Status 500, [ex_txn2])"
proof -
  have h1: "getTask [ex_task] (params_id \<lparr>user_sub = ''alice'', params_id = ''t1'', body = ()\<rparr>) = Some ex_task \<and>
      task_helperId ex_task = Some ''bob'' \<and> ''x1'' \<notin> set (map txn_id []) \<and>
      task_authorId ex_task \<in> set (map user_id ex_users) \<and> ''bob'' \<in> set (map user_id ex_users)"
    by (simp add: getTask_def ex_task_def ex_users_def)
  have h2: "getTask [ex_task\<lparr>task_helperId := None\<rparr>]
        (params_id \<lparr>user_sub = ''alice'', params_id = ''t1'', body = ()\<rparr>) =
        Some (ex_task\<lparr>task_helperId := None\<rparr>) \<and>
      task_helperId (ex_task\<lparr>task_helperId := None\<rparr>) = None"
    by (simp add: getTask_def ex_task_def)
  note a = create_transaction_copies_task[where tasks = "[ex_task]" and t = ex_task
      and req = "\<lparr>user_sub = ''alice'', params_id = ''t1'', body = ()\<rparr>" and h = "''bob''"
      and newId = "''x1''" and txs = "[]" and users = ex_users and now = 3]
  note b = create_transaction_copies_task[where tasks = "[ex_task\<lparr>task_helperId := None\<rparr>]"
      and t = "ex_task\<lparr>task_helperId := None\<rparr>"
      and req = "\<lparr>user_sub = ''alice'', params_id = ''t1'', body = ()\<rparr>"
      and newId = "''x1''" and txs = "[ex_txn2]" and users = ex_users and now = 3]
  have r1: "create_transaction_route ex_users [ex_task] [] ''x1'' 3
      \<lparr>user_sub = ''alice'', params_id = ''t1'', body = ()\<rparr> = (Json ex_txn, [ex_txn])"
    using a h1 by (simp add: ex_task_def ex_txn_def)
  have r2: "create_transaction_route ex_users [ex_task\<lparr>task_helperId := None\<rparr>] [ex_txn2] ''x1'' 3
      \<lparr>user_sub = ''alice'', params_id = ''t1'', body = ()\<rparr> = (Status 500, [ex_txn2])"
    using b h2 by simp
  show ?thesis using h1 h2 r1 r2 by simp
qed

text \<open>
  The claim as first stated asks that the caller own the task. The handler looks at the
  caller nowhere: the helper of the task, who does not own it, creates its transaction, and so
  does a user who has no part in the task.
\<close>

theorem create_transaction_owner_counterexample:
  "task_authorId ex_task \<noteq> ''bob'' \<and>
   create_transaction_route ex_users [ex_task] [] ''x1'' 3
      \<lparr>user_sub = ''bob'', params_id = ''t1'', body = ()\<rparr> = (Json ex_txn, [ex_txn]) \<and>
   task_authorId ex_task \<noteq> ''carol'' \<and> task_helperId ex_task \<noteq> Some ''carol'' \<and>
   create_transaction_route ex_users [ex_task] [] ''x1'' 3
      \<lparr>user_sub = ''carol'', params_id = ''t1'', body = ()\<rparr> = (Json ex_txn, [ex_txn])"
  by (simp add: create_transaction_route_def createTransaction_def getTask_def Let_def
      ex_task_def ex_txn_def ex_users_def)

section \<open>Conversations\<close>

lemma find_append_new:
  "find P xs = None \<Longrightarrow> P x \<Longrightarrow> find P (xs @ [x]) = Some x"
  by (induction xs) (auto split: if_splits)

lemma getOrCreateConversation_again:
  assumes "getOrCreateConversation users tasks convs newId now k a p = Inr (c, convs1)"
  shows "getOrCreateConversation users2 tasks2 convs1 newId2 now2 k a p = Inr (c, convs1)"
proof (cases "find (\<lambda>c. conv_taskId c = k \<and> conv_authorId c = a \<and> conv_participantId c = p) convs")
  case (Some existing)
  with assms have "c = existing" "convs1 = convs"
    by (simp_all add: getOrCreateConversation_def)
  with Some show ?thesis by (simp add: getOrCreateConversation_def)
next
  case None
  with assms have c: "c = \<lparr>conv_id = newId, conv_taskId = k, conv_authorId = a,
        conv_participantId = p, lastMessageAt = None, conv_createdAt = Some now\<rparr>"
    and l: "convs1 = convs @ [c]"
    by (auto simp add: getOrCreateConversation_def Let_def split: if_splits)
  have "find (\<lambda>c. conv_taskId c = k \<and> conv_authorId c = a \<and> conv_participantId c = p) convs1 = Some c"
    unfolding l by (rule find_append_new[OF None]) (simp add: c)
  then show ?thesis by (simp add: getOrCreateConversation_def)
qed

lemma getOrCreateConversation_returns:
  assumes "newId \<notin> set (map conv_id convs)" "k \<in> set (map task_id tasks)"
    "a \<in> set (map user_id users)" "p \<in> set (map user_id users)"
  shows "\<exists>c convs1. getOrCreateConversation users tasks convs newId now k a p = Inr (c, convs1)"
  using assms by (simp add: getOrCreateConversation_def Let_def split: option.splits)

text \<open>
  C8. A first call of \<open>getOrCreateConversation\<close> returns a conversation whenever the new key
  is unused and the task and the two users exist (and, when a row with the three keys is
  already there, in any case). After a first call that returned, a second call with the same
  three keys returns the very same row, so the same id, and leaves the table as the first call
  left it, whatever fresh key and clock it is given.
\<close>

theorem getOrCreateConversation_twice:
  "(newId \<notin> set (map conv_id convs) \<and> k \<in> set (map task_id tasks) \<and>
    a \<in> set (map user_id users) \<and> p \<in> set (map user_id users) \<longrightarrow>
      (\<exists>c convs1. getOrCreateConversation users tasks convs newId now k a p = Inr (c, convs1))) \<and>
   (getOrCreateConversation users tasks convs newId now k a p = Inr (c1, convs1) \<longrightarrow>
      getOrCreateConversation users tasks convs1 newId2 now2 k a p = Inr (c1, convs1))"
  using getOrCreateConversation_returns[of newId convs k tasks a users p now]
    getOrCreateConversation_again[of users tasks convs newId now k a p c1 convs1 users tasks newId2 now2]
  by blast

theorem getOrCreateConversation_twice_witness:
  "''v1'' \<notin> set (map conv_id []) \<and> ''t1'' \<in> set (map task_id [ex_task]) \<and>
   ''alice'' \<in> set (map user_id ex_users) \<and> ''carol'' \<in> set (map user_id ex_users) \<and>
   getOrCreateConversation ex_users [ex_task] [] ''v1'' 4 ''t1'' ''alice'' ''carol'' =
     Inr (ex_conv, [ex_conv]) \<and>
   getOrCreateConversation ex_users [ex_task] [ex_conv] ''v2'' 5 ''t1'' ''alice'' ''carol'' =
     Inr (ex_conv, [ex_conv])"
proof -
  have h: "''v1'' \<notin> set (map conv_id []) \<and> ''t1'' \<in> set (map task_id [ex_task]) \<and>
     ''alice'' \<in> set (map user_id ex_users) \<and> ''carol'' \<in> set (map user_id ex_users)"
    by (simp add: ex_task_def ex_users_def)
  have f: "getOrCreateConversation ex_users [ex_task] [] ''v1'' 4 ''t1'' ''alice'' ''carol'' =
     Inr (ex_conv, [ex_conv])"
    by (simp add: getOrCreateConversation_def ex_conv_def ex_task_def ex_users_def Let_def)
  note t = getOrCreateConversation_twice[where newId = "''v1''" and convs = "[]" and k = "''t1''"
      and tasks = "[ex_task]" and a = "''alice''" and users = ex_users and p = "''carol''"
      and now = 4 and ?c1.0 = ex_conv and ?convs1.0 = "[ex_conv]" and ?newId2.0 = "''v2''" and ?now2.0 = 5]
  have s: "getOrCreateConversation ex_users [ex_task] [ex_conv] ''v2'' 5 ''t1'' ''alice'' ''carol'' =
     Inr (ex_conv, [ex_conv])"
    using t f by blast
  show ?thesis using h f s by simp
qed

section \<open>Tasks\<close>

lemma set_task_id [simp]: "task_id (set_task p now t) = task_id t"
  by (simp add: set_task_def)

lemma getTask_rewritten:
  assumes "getTask tasks i = Some t"
  shows "getTask (map (\<lambda>x. if task_id x = i then set_task p now x else x) tasks) i =
         Some (set_task p now t)"
  using assms unfolding getTask_def
  by (induction tasks) (auto split: if_splits)

lemma updateTask_found:
  assumes found: "getTask tasks i = Some t"
    and vals: "patch_values_ok p" "fits_varchar255 (p_title p)"
    and rows: "patch_not_null_ok p" "patch_refs_ok users p"
  shows "updateTask users tasks i p now =
           Inr (Some (set_task p now t),
                map (\<lambda>x. if task_id x = i then set_task p now x else x) tasks)"
  using getTask_rewritten[OF found, of p now] vals rows
  by (simp add: updateTask_def Let_def getTask_def)

lemma updateTask_refused:
  assumes found: "getTask tasks i = Some t"
    and bad: "\<not> patch_constraints_ok users p"
  shows "\<exists>e. updateTask users tasks i p now = Inl e"
proof -
  from getTask_found[OF found] have "i \<in> set (map task_id tasks)" by force
  then show ?thesis using bad by (auto simp add: updateTask_def patch_constraints_ok_def)
qed

lemma cancel_patch_ok:
  "patch_values_ok (no_patch\<lparr>p_status := Some (Some ''cancelled'')\<rparr>)"
  "fits_varchar255 (p_title (no_patch\<lparr>p_status := Some (Some ''cancelled'')\<rparr>))"
  "patch_not_null_ok (no_patch\<lparr>p_status := Some (Some ''cancelled'')\<rparr>)"
  "patch_refs_ok users (no_patch\<lparr>p_status := Some (Some ''cancelled'')\<rparr>)"
  by (simp_all add: patch_values_ok_def valid_text_def fits_varchar255_def patch_not_null_ok_def
      patch_refs_ok_def no_patch_def)

lemma patch_task_route_found:
  assumes "getTask tasks (params_id req) = Some t"
  shows "patch_task_route users tasks now req =
     (if truthy_string (p_helperId (body req)) \<and>
         p_helperId (body req) = Some (Some (task_authorId t)) then (Status 400, tasks)
      else if task_authorId t \<noteq> user_sub req \<and>
              p_helperId (body req) \<noteq> Some (Some (user_sub req)) then (Status 403, tasks)
      else
        (case updateTask users tasks (params_id req) (body req) now of
           Inl e \<Rightarrow> (Status 500, tasks)
         | Inr (updatedTask, tasks') \<Rightarrow> (Json updatedTask, tasks')))"
  using assms by (simp add: patch_task_route_def)

lemma delete_task_route_found:
  assumes "getTask tasks (params_id req) = Some t"
  shows "delete_task_route users tasks now req =
     (if task_authorId t \<noteq> user_sub req then (Status 403, tasks)
      else if task_status t \<noteq> Some ''open'' \<and> task_status t \<noteq> Some ''accepted''
      then (Status 400, tasks)
      else (Json (Some (set_task (no_patch\<lparr>p_status := Some (Some ''cancelled'')\<rparr>) now t)),
            map (\<lambda>x. if task_id x = params_id req
                      then set_task (no_patch\<lparr>p_status := Some (Some ''cancelled'')\<rparr>) now x
                      else x) tasks))"
  using updateTask_found[OF assms cancel_patch_ok, of users now] assms
  by (simp add: delete_task_route_def)

lemma set_task_cancel:
  "set_task (no_patch\<lparr>p_status := Some (Some ''cancelled'')\<rparr>) now t =
     t\<lparr>task_status := Some ''cancelled'', task_updatedAt := Some now\<rparr>"
  by (simp add: set_task_def no_patch_def set_req_def set_not_null_def set_varchar255_def
      set_numeric_def)

text \<open>
  C5. A PATCH whose body sets a \<open>helperId\<close> equal to the author of the task is answered with
  status 400, whoever sends it, and the tasks table is left as it was. (An identifier is not the
  empty string, which JavaScript takes for "no helperId".)
\<close>

theorem patch_rejects_self_accept:
  assumes "getTask tasks (params_id req) = Some t"
    and "p_helperId (body req) = Some (Some (task_authorId t))"
    and "task_authorId t \<noteq> []"
  shows "patch_task_route users tasks now req = (Status 400, tasks)"
  using assms by (simp add: patch_task_route_found truthy_string_def)

theorem patch_rejects_self_accept_witness:
  "getTask [ex_open_task] ''t1'' = Some ex_open_task \<and> task_authorId ex_open_task = ''alice'' \<and>
   patch_task_route ex_users [ex_open_task] 5
     \<lparr>user_sub = ''alice'', params_id = ''t1'',
      body = no_patch\<lparr>p_helperId := Some (Some ''alice''), p_status := Some (Some ''accepted'')\<rparr>\<rparr>
   = (Status 400, [ex_open_task])"
proof -
  have f: "getTask [ex_open_task] ''t1'' = Some ex_open_task"
    by (simp add: getTask_def ex_open_task_def ex_task_def)
  have a: "task_authorId ex_open_task = ''alice''"
    by (simp add: ex_open_task_def ex_task_def)
  have "patch_task_route ex_users [ex_open_task] 5
     \<lparr>user_sub = ''alice'', params_id = ''t1'',
      body = no_patch\<lparr>p_helperId := Some (Some ''alice''), p_status := Some (Some ''accepted'')\<rparr>\<rparr>
   = (Status 400, [ex_open_task])"
    by (rule patch_rejects_self_accept[where t = ex_open_task]) (simp_all add: f a no_patch_def)
  with f a show ?thesis by simp
qed

text \<open>
  C6. For an existing task: Cancel by the author of a task that is \<open>open\<close> or \<open>accepted\<close>
  succeeds and stores the status \<open>cancelled\<close> (with the time of the update); a caller who is
  not the author gets status 403 (Forbidden); the author of a task in any other status, among
  them \<open>in_progress\<close>, \<open>completed\<close> and \<open>cancelled\<close>, gets status 400 (InvalidState). On
  both failures the tasks table is left as it was.
\<close>

theorem cancel_task_cases:
  assumes found: "getTask tasks (params_id req) = Some t"
  shows
    "(task_authorId t = user_sub req \<and>
      (task_status t = Some ''open'' \<or> task_status t = Some ''accepted'') \<longrightarrow>
        (\<exists>r. fst (delete_task_route users tasks now req) = Json r) \<and>
        getTask (snd (delete_task_route users tasks now req)) (params_id req) =
          Some (t\<lparr>task_status := Some ''cancelled'', task_updatedAt := Some now\<rparr>)) \<and>
     (task_authorId t \<noteq> user_sub req \<longrightarrow>
        delete_task_route users tasks now req = (Status 403, tasks)) \<and>
     (task_authorId t = user_sub req \<and>
      task_status t \<noteq> Some ''open'' \<and> task_status t \<noteq> Some ''accepted'' \<longrightarrow>
        delete_task_route users tasks now req = (Status 400, tasks))"
  using getTask_rewritten[OF found, of "no_patch\<lparr>p_status := Some (Some ''cancelled'')\<rparr>" now]
  by (auto simp add: delete_task_route_found[OF found] set_task_cancel)

theorem cancel_task_cases_witness:
  "getTask [ex_task] ''t1'' = Some ex_task \<and>
   getTask (snd (delete_task_route ex_users [ex_task] 9
       \<lparr>user_sub = ''alice'', params_id = ''t1'', body = ()\<rparr>)) ''t1'' =
     Some (ex_task\<lparr>task_status := Some ''cancelled'', task_updatedAt := Some 9\<rparr>) \<and>
   delete_task_route ex_users [ex_task] 9 \<lparr>user_sub = ''bob'', params_id = ''t1'', body = ()\<rparr> =
     (Status 403, [ex_task]) \<and>
   getTask [ex_completed_task] ''t1'' = Some ex_completed_task \<and>
   delete_task_route ex_users [ex_completed_task] 9
       \<lparr>user_sub = ''alice'', params_id = ''t1'', body = ()\<rparr> =
     (Status 400, [ex_completed_task])"
proof -
  have f1: "getTask [ex_task] (params_id \<lparr>user_sub = ''alice'', params_id = ''t1'', body = ()\<rparr>) = Some ex_task"
    and f2: "getTask [ex_task] (params_id \<lparr>user_sub = ''bob'', params_id = ''t1'', body = ()\<rparr>) = Some ex_task"
    and f3: "getTask [ex_completed_task] (params_id \<lparr>user_sub = ''alice'', params_id = ''t1'', body = ()\<rparr>) =
      Some ex_completed_task"
    by (simp_all add: getTask_def ex_task_def ex_completed_task_def)
  have a: "getTask (snd (delete_task_route ex_users [ex_task] 9
       \<lparr>user_sub = ''alice'', params_id = ''t1'', body = ()\<rparr>)) ''t1'' =
     Some (ex_task\<lparr>task_status := Some ''cancelled'', task_updatedAt := Some 9\<rparr>)"
    using cancel_task_cases[OF f1, of ex_users 9] by (simp add: ex_task_def)
  have b: "delete_task_route ex_users [ex_task] 9 \<lparr>user_sub = ''bob'', params_id = ''t1'', body = ()\<rparr> =
     (Status 403, [ex_task])"
    using cancel_task_cases[OF f2, of ex_users 9] by (simp add: ex_task_def)
  have c: "delete_task_route ex_users [ex_completed_task] 9
       \<lparr>user_sub = ''alice'', params_id = ''t1'', body = ()\<rparr> = (Status 400, [ex_completed_task])"
    using cancel_task_cases[OF f3, of ex_users 9] by (simp add: ex_task_def ex_completed_task_def)
  show ?thesis using f1 f3 a b c by simp
qed

subsection \<open>What a PATCH may write\<close>

lemma patch_task_route_authorised:
  assumes found: "find (\<lambda>x. task_id x = params_id req) tasks = Some t"
    and guard: "\<not> (truthy_string (p_helperId (body req)) \<and>
                   p_helperId (body req) = Some (Some (task_authorId t)))"
    and auth: "task_authorId t = user_sub req \<or> p_helperId (body req) = Some (Some (user_sub req))"
    and ok: "patch_constraints_ok users (body req)"
  shows "patch_task_route users tasks now req =
           (Json (Some (set_task (body req) now t)),
            map (\<lambda>x. if task_id x = params_id req then set_task (body req) now x else x) tasks)"
proof -
  have f: "getTask tasks (params_id req) = Some t" using found by (simp add: getTask_def)
  from ok have c: "patch_values_ok (body req)" "fits_varchar255 (p_title (body req))"
      "patch_not_null_ok (body req)" "patch_refs_ok users (body req)"
    by (simp_all add: patch_constraints_ok_def)
  show ?thesis
    using guard auth
    by (auto simp add: patch_task_route_found[OF f] updateTask_found[OF f c])
qed

lemma patch_task_route_refused:
  assumes found: "find (\<lambda>x. task_id x = params_id req) tasks = Some t"
    and guard: "\<not> (truthy_string (p_helperId (body req)) \<and>
                   p_helperId (body req) = Some (Some (task_authorId t)))"
    and auth: "task_authorId t = user_sub req \<or> p_helperId (body req) = Some (Some (user_sub req))"
    and bad: "\<not> patch_constraints_ok users (body req)"
  shows "patch_task_route users tasks now req = (Status 500, tasks)"
proof -
  have f: "getTask tasks (params_id req) = Some t" using found by (simp add: getTask_def)
  from updateTask_refused[OF f bad, of now] obtain e
    where "updateTask users tasks (params_id req) (body req) now = Inl e" by blast
  then show ?thesis
    using guard auth by (auto simp add: patch_task_route_found[OF f])
qed

lemma find_rewritten:
  assumes "find (\<lambda>x. task_id x = i) tasks = Some t"
  shows "find (\<lambda>x. task_id x = i) (map (\<lambda>x. if task_id x = i then set_task p now x else x) tasks) =
         Some (set_task p now t)"
  using getTask_rewritten[of tasks i t p now] assms by (simp add: getTask_def)

lemma patch_task_route_stored:
  assumes found: "find (\<lambda>x. task_id x = params_id req) tasks = Some t"
    and guard: "\<not> (truthy_string (p_helperId (body req)) \<and>
                   p_helperId (body req) = Some (Some (task_authorId t)))"
    and auth: "task_authorId t = user_sub req \<or> p_helperId (body req) = Some (Some (user_sub req))"
    and ok: "patch_constraints_ok users (body req)"
  shows "\<exists>t'. fst (patch_task_route users tasks now req) = Json (Some t') \<and>
           find (\<lambda>x. task_id x = params_id req) (snd (patch_task_route users tasks now req)) = Some t' \<and>
           task_helperId t' = (case p_helperId (body req) of None \<Rightarrow> task_helperId t | Some h \<Rightarrow> h) \<and>
           task_status t' = (case p_status (body req) of None \<Rightarrow> task_status t | Some s \<Rightarrow> s)"
  by (rule exI[of _ "set_task (body req) now t"])
     (simp add: patch_task_route_authorised[OF found guard auth ok] find_rewritten[OF found]
        set_task_def set_req_def)

lemma delete_task_route_rows:
  "snd (delete_task_route users tasks now req) = tasks \<or>
   (\<exists>t. getTask tasks (params_id req) = Some t \<and>
      (task_status t = Some ''open'' \<or> task_status t = Some ''accepted'') \<and>
      snd (delete_task_route users tasks now req) =
        map (\<lambda>x. if task_id x = params_id req
                  then x\<lparr>task_status := Some ''cancelled'', task_updatedAt := Some now\<rparr>
                  else x) tasks)"
proof (cases "getTask tasks (params_id req)")
  case None
  then show ?thesis by (simp add: delete_task_route_def)
next
  case (Some t)
  then show ?thesis
    by (auto simp add: delete_task_route_found[OF Some] set_task_cancel)
qed

lemma delete_task_route_forward:
  assumes d: "distinct (map task_id tasks)"
  shows "mset (map task_id (snd (delete_task_route users tasks now req))) = mset (map task_id tasks) \<and>
     (\<forall>t\<in>set tasks. \<forall>t'\<in>set (snd (delete_task_route users tasks now req)).
        task_id t' = task_id t \<longrightarrow>
          task_status t' = task_status t \<or>
          ((task_status t = Some ''open'' \<or> task_status t = Some ''accepted'') \<and>
           task_status t' = Some ''cancelled''))"
  using delete_task_route_rows[of users tasks now req]
proof
  assume eq: "snd (delete_task_route users tasks now req) = tasks"
  have inj: "inj_on task_id (set tasks)" using d by (simp add: distinct_map)
  have "t' = t" if "t \<in> set tasks" "t' \<in> set tasks" "task_id t' = task_id t" for t t'
    using that inj by (auto dest: inj_onD)
  then show ?thesis unfolding eq by auto
next
  assume "\<exists>t. getTask tasks (params_id req) = Some t \<and>
      (task_status t = Some ''open'' \<or> task_status t = Some ''accepted'') \<and>
      snd (delete_task_route users tasks now req) =
        map (\<lambda>x. if task_id x = params_id req
                  then x\<lparr>task_status := Some ''cancelled'', task_updatedAt := Some now\<rparr>
                  else x) tasks"
  then obtain t0 where f: "getTask tasks (params_id req) = Some t0"
    and st: "task_status t0 = Some ''open'' \<or> task_status t0 = Some ''accepted''"
    and eq: "snd (delete_task_route users tasks now req) =
        map (\<lambda>x. if task_id x = params_id req
                  then x\<lparr>task_status := Some ''cancelled'', task_updatedAt := Some now\<rparr>
                  else x) tasks"
    by blast
  have inj: "inj_on task_id (set tasks)" using d by (simp add: distinct_map)
  from getTask_found[OF f] have m: "t0 \<in> set tasks" and k: "task_id t0 = params_id req"
    by simp_all
  have ids: "map task_id (snd (delete_task_route users tasks now req)) = map task_id tasks"
    unfolding eq by (induction tasks) auto
  have rows: "task_status t' = task_status t \<or>
          ((task_status t = Some ''open'' \<or> task_status t = Some ''accepted'') \<and>
           task_status t' = Some ''cancelled'')"
    if t: "t \<in> set tasks" and t': "t' \<in> set (snd (delete_task_route users tasks now req))"
      and same: "task_id t' = task_id t" for t t'
  proof -
    from t' obtain x where x: "x \<in> set tasks"
      and t'x: "t' = (if task_id x = params_id req
                      then x\<lparr>task_status := Some ''cancelled'', task_updatedAt := Some now\<rparr>
                      else x)"
      unfolding eq by auto
    have "task_id x = task_id t" using t'x same by (simp split: if_splits)
    then have xt: "x = t" by (rule inj_onD[OF inj _ x t])
    show ?thesis
    proof (cases "task_id t = params_id req")
      case True
      then have "task_id t = task_id t0" using k by simp
      then have "t = t0" by (rule inj_onD[OF inj _ t m])
      then show ?thesis using st t'x xt True by simp
    next
      case False
      then show ?thesis using t'x xt by simp
    qed
  qed
  show ?thesis using ids rows by simp
qed

text \<open>
  C3 (as amended). Cancel (\<open>DELETE /api/tasks/:id\<close>) moves the status of a task only from
  \<open>open\<close> or \<open>accepted\<close> to \<open>cancelled\<close>: in a table with a primary key, the table
  holds the same tasks afterwards, and every task keeps its status or was \<open>open\<close> or
  \<open>accepted\<close> and is now \<open>cancelled\<close>, so that no task that is \<open>in_progress\<close>,
  \<open>completed\<close> or \<open>cancelled\<close> is changed. \<open>PATCH /api/tasks/:id\<close> checks no
  transition: when the author of a task sends a body that carries a status, does not name the
  author as helper and meets the constraints of the tasks table, the answer is the updated
  task and that status is stored, whatever the status of the task was.
\<close>

theorem task_status_transitions:
  "(distinct (map task_id tasks) \<longrightarrow>
      mset (map task_id (snd (delete_task_route users tasks now req))) = mset (map task_id tasks) \<and>
      (\<forall>t\<in>set tasks. \<forall>t'\<in>set (snd (delete_task_route users tasks now req)).
         task_id t' = task_id t \<longrightarrow>
           task_status t' = task_status t \<or>
           ((task_status t = Some ''open'' \<or> task_status t = Some ''accepted'') \<and>
            task_status t' = Some ''cancelled''))) \<and>
   (find (\<lambda>x. task_id x = params_id preq) tasks = Some t \<and> task_authorId t = user_sub preq \<and>
    \<not> (truthy_string (p_helperId (body preq)) \<and>
       p_helperId (body preq) = Some (Some (task_authorId t))) \<and>
    patch_constraints_ok users (body preq) \<and> p_status (body preq) = Some s \<longrightarrow>
      (\<exists>t'. fst (patch_task_route users tasks now preq) = Json (Some t') \<and>
         find (\<lambda>x. task_id x = params_id preq) (snd (patch_task_route users tasks now preq)) =
           Some t' \<and>
         task_status t' = s))"
proof (rule conjI; rule impI)
  assume "distinct (map task_id tasks)"
  then show "mset (map task_id (snd (delete_task_route users tasks now req))) = mset (map task_id tasks) \<and>
      (\<forall>t\<in>set tasks. \<forall>t'\<in>set (snd (delete_task_route users tasks now req)).
         task_id t' = task_id t \<longrightarrow>
           task_status t' = task_status t \<or>
           ((task_status t = Some ''open'' \<or> task_status t = Some ''accepted'') \<and>
            task_status t' = Some ''cancelled''))"
    by (rule delete_task_route_forward)
next
  assume a: "find (\<lambda>x. task_id x = params_id preq) tasks = Some t \<and> task_authorId t = user_sub preq \<and>
    \<not> (truthy_string (p_helperId (body preq)) \<and>
       p_helperId (body preq) = Some (Some (task_authorId t))) \<and>
    patch_constraints_ok users (body preq) \<and> p_status (body preq) = Some s"
  then have found: "find (\<lambda>x. task_id x = params_id preq) tasks = Some t"
    and guard: "\<not> (truthy_string (p_helperId (body preq)) \<and>
       p_helperId (body preq) = Some (Some (task_authorId t)))"
    and auth: "task_authorId t = user_sub preq \<or> p_helperId (body preq) = Some (Some (user_sub preq))"
    and ok: "patch_constraints_ok users (body preq)"
    and st: "p_status (body preq) = Some s"
    by blast+
  from patch_task_route_stored[OF found guard auth ok, of now] st
  show "\<exists>t'. fst (patch_task_route users tasks now preq) = Json (Some t') \<and>
         find (\<lambda>x. task_id x = params_id preq) (snd (patch_task_route users tasks now preq)) =
           Some t' \<and>
         task_status t' = s"
    by auto
qed

lemma ex_reopen_result:
  "patch_task_route ex_users [ex_completed_task] 9 ex_reopen =
     (Json (Some (ex_completed_task\<lparr>task_status := Some ''open'', task_updatedAt := Some 9\<rparr>)),
      [ex_completed_task\<lparr>task_status := Some ''open'', task_updatedAt := Some 9\<rparr>])"
  by (simp add: ex_reopen_def patch_task_route_def updateTask_def getTask_def
      patch_values_ok_def valid_text_def fits_varchar255_def patch_not_null_ok_def
      patch_refs_ok_def no_patch_def truthy_string_def set_task_def set_req_def
      set_not_null_def set_varchar255_def set_numeric_def Let_def
      ex_task_def ex_completed_task_def)

lemma ex_cancel_result:
  "snd (delete_task_route ex_users [ex_task, ex_completed_task\<lparr>task_id := ''t2''\<rparr>] 9
      \<lparr>user_sub = ''alice'', params_id = ''t1'', body = ()\<rparr>) =
   [ex_task\<lparr>task_status := Some ''cancelled'', task_updatedAt := Some 9\<rparr>,
    ex_completed_task\<lparr>task_id := ''t2''\<rparr>]"
  by (simp add: delete_task_route_def updateTask_def getTask_def
      patch_values_ok_def valid_text_def fits_varchar255_def patch_not_null_ok_def
      patch_refs_ok_def no_patch_def set_task_def set_req_def
      set_not_null_def set_varchar255_def set_numeric_def Let_def
      ex_task_def ex_completed_task_def)

theorem task_status_transitions_witness:
  "distinct (map task_id [ex_task, ex_completed_task\<lparr>task_id := ''t2''\<rparr>]) \<and>
   mset (map task_id (snd (delete_task_route ex_users [ex_task, ex_completed_task\<lparr>task_id := ''t2''\<rparr>] 9
      \<lparr>user_sub = ''alice'', params_id = ''t1'', body = ()\<rparr>))) = {#''t1'', ''t2''#} \<and>
   map_option task_status
     (find (\<lambda>x. task_id x = ''t1'')
        (snd (delete_task_route ex_users [ex_task, ex_completed_task\<lparr>task_id := ''t2''\<rparr>] 9
           \<lparr>user_sub = ''alice'', params_id = ''t1'', body = ()\<rparr>))) = Some (Some ''cancelled'') \<and>
   map_option task_status
     (find (\<lambda>x. task_id x = ''t2'')
        (snd (delete_task_route ex_users [ex_task, ex_completed_task\<lparr>task_id := ''t2''\<rparr>] 9
           \<lparr>user_sub = ''alice'', params_id = ''t1'', body = ()\<rparr>))) = Some (Some ''completed'') \<and>
   find (\<lambda>x. task_id x = ''t1'') [ex_completed_task] = Some ex_completed_task \<and>
   task_authorId ex_completed_task = ''alice'' \<and>
   patch_constraints_ok ex_users (body ex_reopen) \<and>
   fst (patch_task_route ex_users [ex_completed_task] 9 ex_reopen) =
     Json (Some (ex_completed_task\<lparr>task_status := Some ''open'', task_updatedAt := Some 9\<rparr>)) \<and>
   map_option task_status
     (find (\<lambda>x. task_id x = ''t1'') (snd (patch_task_route ex_users [ex_completed_task] 9 ex_reopen))) =
     Some (Some ''open'')"
proof -
  let ?T = "[ex_task, ex_completed_task\<lparr>task_id := ''t2''\<rparr>]"
  let ?T' = "snd (delete_task_route ex_users ?T 9 \<lparr>user_sub = ''alice'', params_id = ''t1'', body = ()\<rparr>)"
  have d: "distinct (map task_id ?T)"
    by (simp add: ex_task_def ex_completed_task_def)
  have h: "find (\<lambda>x. task_id x = params_id ex_reopen) [ex_completed_task] = Some ex_completed_task \<and>
     task_authorId ex_completed_task = user_sub ex_reopen \<and>
     \<not> (truthy_string (p_helperId (body ex_reopen)) \<and>
        p_helperId (body ex_reopen) = Some (Some (task_authorId ex_completed_task))) \<and>
     patch_constraints_ok ex_users (body ex_reopen) \<and>
     p_status (body ex_reopen) = Some (Some ''open'')"
    by (simp add: ex_reopen_def ex_task_def ex_completed_task_def no_patch_def truthy_string_def
        patch_constraints_ok_def patch_values_ok_def valid_text_def fits_varchar255_def
        patch_not_null_ok_def patch_refs_ok_def)
  note t = task_status_transitions[where tasks = "[ex_completed_task]" and users = ex_users
      and now = 9 and t = ex_completed_task and s = "Some ''open''" and preq = ex_reopen]
  from t h obtain t' where
      t': "find (\<lambda>x. task_id x = params_id ex_reopen)
             (snd (patch_task_route ex_users [ex_completed_task] 9 ex_reopen)) = Some t'"
        "task_status t' = Some ''open''"
    by blast
  have p: "map_option task_status
     (find (\<lambda>x. task_id x = ''t1'') (snd (patch_task_route ex_users [ex_completed_task] 9 ex_reopen))) =
     Some (Some ''open'')"
    using t' by (simp add: ex_reopen_def)
  have r: "fst (patch_task_route ex_users [ex_completed_task] 9 ex_reopen) =
     Json (Some (ex_completed_task\<lparr>task_status := Some ''open'', task_updatedAt := Some 9\<rparr>))"
    by (simp add: ex_reopen_result)
  note u = task_status_transitions[where tasks = ?T and users = ex_users and now = 9
      and req = "\<lparr>user_sub = ''alice'', params_id = ''t1'', body = ()\<rparr>"]
  from u d have ids: "mset (map task_id ?T') = mset (map task_id ?T)"
    and rows: "\<forall>t\<in>set ?T. \<forall>t'\<in>set ?T'. task_id t' = task_id t \<longrightarrow>
           task_status t' = task_status t \<or>
           ((task_status t = Some ''open'' \<or> task_status t = Some ''accepted'') \<and>
            task_status t' = Some ''cancelled'')"
    by blast+
  have i: "mset (map task_id ?T') = {#''t1'', ''t2''#}"
    using ids by (simp add: ex_task_def ex_completed_task_def)
  have k1: "map_option task_status (find (\<lambda>x. task_id x = ''t1'') ?T') = Some (Some ''cancelled'')"
    unfolding ex_cancel_result by (simp add: ex_task_def ex_completed_task_def)
  have k2: "map_option task_status (find (\<lambda>x. task_id x = ''t2'') ?T') = Some (Some ''completed'')"
  proof -
    have m: "ex_completed_task\<lparr>task_id := ''t2''\<rparr> \<in> set ?T" by simp
    have m': "ex_completed_task\<lparr>task_id := ''t2''\<rparr> \<in> set ?T'"
      unfolding ex_cancel_result by simp
    from rows[rule_format, OF m m']
    have "task_status (ex_completed_task\<lparr>task_id := ''t2''\<rparr>) = Some ''completed''"
      by (simp add: ex_completed_task_def)
    then show ?thesis unfolding ex_cancel_result by (simp add: ex_task_def ex_completed_task_def)
  qed
  have f: "find (\<lambda>x. task_id x = ''t1'') [ex_completed_task] = Some ex_completed_task \<and>
     task_authorId ex_completed_task = ''alice''"
    using h by (simp add: ex_reopen_def)
  show ?thesis using d i k1 k2 p h r f by simp
qed

text \<open>
  The claim as first stated fails on a PATCH: the author of a completed task sends
  \<open>{ status: 'open' }\<close> and the task is \<open>open\<close> again.
\<close>

theorem task_forward_only_counterexample:
  "task_status ex_completed_task = Some ''completed'' \<and>
   map task_status (snd (patch_task_route ex_users [ex_completed_task] 9
      \<lparr>user_sub = ''alice'', params_id = ''t1'',
       body = no_patch\<lparr>p_status := Some (Some ''open'')\<rparr>\<rparr>)) = [Some ''open'']"
  using ex_reopen_result by (simp add: ex_reopen_def ex_task_def ex_completed_task_def)

text \<open>
  C4 (as amended). Accept has no precondition on the status or the helper of the task, and
  the handler has no Conflict answer: for every existing task, a PATCH whose \<open>helperId\<close> is
  the caller, the caller not being the author, succeeds when the body meets the constraints of
  the tasks table. It stores \<open>helperId = actor\<close> and the status that the body carries,
  \<open>accepted\<close> when the body says so, and the status the task had when the body carries
  none. When the body violates a constraint, the answer is status 500 and the table is left as
  it was.
\<close>

theorem accept_writes_helper:
  assumes "find (\<lambda>x. task_id x = params_id req) tasks = Some t"
    and "p_helperId (body req) = Some (Some (user_sub req))"
    and "user_sub req \<noteq> task_authorId t"
  shows "(patch_constraints_ok users (body req) \<longrightarrow>
            (\<exists>t'. fst (patch_task_route users tasks now req) = Json (Some t') \<and>
               find (\<lambda>x. task_id x = params_id req) (snd (patch_task_route users tasks now req)) =
                 Some t' \<and>
               task_helperId t' = Some (user_sub req) \<and>
               task_status t' =
                 (case p_status (body req) of None \<Rightarrow> task_status t | Some s \<Rightarrow> s))) \<and>
         (\<not> patch_constraints_ok users (body req) \<longrightarrow>
            patch_task_route users tasks now req = (Status 500, tasks))"
proof -
  have guard: "\<not> (truthy_string (p_helperId (body req)) \<and>
                   p_helperId (body req) = Some (Some (task_authorId t)))"
    using assms(2,3) by simp
  have auth: "task_authorId t = user_sub req \<or> p_helperId (body req) = Some (Some (user_sub req))"
    using assms(2) by simp
  show ?thesis
    using patch_task_route_stored[OF assms(1) guard auth, of users now]
      patch_task_route_refused[OF assms(1) guard auth, of users now] assms(2)
    by auto
qed

lemma ex_accept_result:
  "patch_task_route ex_users [ex_open_task] 2 (ex_accept ''bob'') =
     (Json (Some (ex_open_task\<lparr>task_status := Some ''accepted'', task_helperId := Some ''bob'',
                               task_updatedAt := Some 2\<rparr>)),
      [ex_open_task\<lparr>task_status := Some ''accepted'', task_helperId := Some ''bob'',
                    task_updatedAt := Some 2\<rparr>])"
  by (simp add: ex_accept_def patch_task_route_def updateTask_def getTask_def
      patch_values_ok_def valid_text_def fits_varchar255_def patch_not_null_ok_def
      patch_refs_ok_def no_patch_def truthy_string_def set_task_def set_req_def
      set_not_null_def set_varchar255_def set_numeric_def Let_def
      ex_task_def ex_open_task_def ex_users_def)

theorem accept_writes_helper_witness:
  "find (\<lambda>x. task_id x = ''t1'') [ex_open_task] = Some ex_open_task \<and>
   ''bob'' \<noteq> task_authorId ex_open_task \<and>
   patch_constraints_ok ex_users (body (ex_accept ''bob'')) \<and>
   fst (patch_task_route ex_users [ex_open_task] 2 (ex_accept ''bob'')) =
     Json (Some (ex_open_task\<lparr>task_status := Some ''accepted'', task_helperId := Some ''bob'',
                              task_updatedAt := Some 2\<rparr>)) \<and>
   map_option task_helperId
     (find (\<lambda>x. task_id x = ''t1'') (snd (patch_task_route ex_users [ex_open_task] 2 (ex_accept ''bob'')))) =
     Some (Some ''bob'') \<and>
   map_option task_status
     (find (\<lambda>x. task_id x = ''t1'') (snd (patch_task_route ex_users [ex_open_task] 2 (ex_accept ''bob'')))) =
     Some (Some ''accepted'') \<and>
   patch_task_route ex_users [ex_open_task] 2 ex_accept_reward = (Status 500, [ex_open_task]) \<and>
   patch_task_route ex_users [ex_open_task] 2 ex_accept_nul = (Status 500, [ex_open_task]) \<and>
   patch_task_route ex_users [ex_open_task] 2 ex_accept_title = (Status 500, [ex_open_task])"
proof -
  have f: "find (\<lambda>x. task_id x = params_id (ex_accept ''bob'')) [ex_open_task] = Some ex_open_task"
    by (simp add: ex_accept_def ex_open_task_def ex_task_def)
  have h: "p_helperId (body (ex_accept ''bob'')) = Some (Some (user_sub (ex_accept ''bob'')))"
    by (simp add: ex_accept_def no_patch_def)
  have a: "user_sub (ex_accept ''bob'') \<noteq> task_authorId ex_open_task"
    by (simp add: ex_accept_def ex_open_task_def ex_task_def)
  have ok: "patch_constraints_ok ex_users (body (ex_accept ''bob''))"
    by (simp add: ex_accept_def no_patch_def ex_users_def
        patch_constraints_ok_def patch_values_ok_def valid_text_def fits_varchar255_def
        patch_not_null_ok_def patch_refs_ok_def)
  from accept_writes_helper[OF f h a, of ex_users 2] ok obtain t' where
      t': "find (\<lambda>x. task_id x = params_id (ex_accept ''bob''))
             (snd (patch_task_route ex_users [ex_open_task] 2 (ex_accept ''bob''))) = Some t'"
        "task_helperId t' = Some (user_sub (ex_accept ''bob''))"
        "task_status t' = (case p_status (body (ex_accept ''bob'')) of
                             None \<Rightarrow> task_status ex_open_task | Some s \<Rightarrow> s)"
    by blast
  have s: "map_option task_helperId
     (find (\<lambda>x. task_id x = ''t1'') (snd (patch_task_route ex_users [ex_open_task] 2 (ex_accept ''bob'')))) =
     Some (Some ''bob'') \<and>
   map_option task_status
     (find (\<lambda>x. task_id x = ''t1'') (snd (patch_task_route ex_users [ex_open_task] 2 (ex_accept ''bob'')))) =
     Some (Some ''accepted'')"
    using t' by (simp add: ex_accept_def no_patch_def)
  have j: "fst (patch_task_route ex_users [ex_open_task] 2 (ex_accept ''bob'')) =
     Json (Some (ex_open_task\<lparr>task_status := Some ''accepted'', task_helperId := Some ''bob'',
                              task_updatedAt := Some 2\<rparr>))"
    by (simp add: ex_accept_result)
  have r1: "patch_task_route ex_users [ex_open_task] 2 ex_accept_reward = (Status 500, [ex_open_task])"
  proof -
    have "find (\<lambda>x. task_id x = params_id ex_accept_reward) [ex_open_task] = Some ex_open_task"
      and "p_helperId (body ex_accept_reward) = Some (Some (user_sub ex_accept_reward))"
      and "user_sub ex_accept_reward \<noteq> task_authorId ex_open_task"
      and "\<not> patch_constraints_ok ex_users (body ex_accept_reward)"
      by (simp_all add: ex_accept_reward_def ex_accept_def ex_open_task_def ex_task_def no_patch_def
          patch_constraints_ok_def patch_values_ok_def)
    then show ?thesis using accept_writes_helper[of ex_accept_reward "[ex_open_task]" ex_open_task ex_users 2]
      by blast
  qed
  have r2: "patch_task_route ex_users [ex_open_task] 2 ex_accept_nul = (Status 500, [ex_open_task])"
  proof -
    have "find (\<lambda>x. task_id x = params_id ex_accept_nul) [ex_open_task] = Some ex_open_task"
      and "p_helperId (body ex_accept_nul) = Some (Some (user_sub ex_accept_nul))"
      and "user_sub ex_accept_nul \<noteq> task_authorId ex_open_task"
      and "\<not> patch_constraints_ok ex_users (body ex_accept_nul)"
      by (simp_all add: ex_accept_nul_def ex_accept_def ex_open_task_def ex_task_def no_patch_def
          patch_constraints_ok_def patch_values_ok_def valid_text_def)
    then show ?thesis using accept_writes_helper[of ex_accept_nul "[ex_open_task]" ex_open_task ex_users 2]
      by blast
  qed
  have r3: "patch_task_route ex_users [ex_open_task] 2 ex_accept_title = (Status 500, [ex_open_task])"
  proof -
    have "find (\<lambda>x. task_id x = params_id ex_accept_title) [ex_open_task] = Some ex_open_task"
      and "p_helperId (body ex_accept_title) = Some (Some (user_sub ex_accept_title))"
      and "user_sub ex_accept_title \<noteq> task_authorId ex_open_task"
      and "\<not> patch_constraints_ok ex_users (body ex_accept_title)"
      by (simp_all add: ex_accept_title_def ex_accept_def ex_open_task_def ex_task_def no_patch_def
          patch_constraints_ok_def fits_varchar255_def)
    then show ?thesis using accept_writes_helper[of ex_accept_title "[ex_open_task]" ex_open_task ex_users 2]
      by blast
  qed
  have f0: "find (\<lambda>x. task_id x = ''t1'') [ex_open_task] = Some ex_open_task \<and>
     ''bob'' \<noteq> task_authorId ex_open_task"
    using f a by (simp add: ex_accept_def)
  show ?thesis using f0 ok s r1 r2 r3 j by simp
qed

text \<open>
  The claim as first stated fails on a task that is already accepted: a second user sends the
  PATCH of an Accept, the answer is the updated task and the helper of the task is replaced.
  It also fails on what a successful Accept stores: a PATCH that sets only \<open>helperId\<close>
  succeeds on an open task and leaves its status \<open>open\<close>.
\<close>

theorem accept_conflict_counterexample:
  "task_status ex_task = Some ''accepted'' \<and> task_helperId ex_task = Some ''bob'' \<and>
   patch_task_route ex_users [ex_task] 9 (ex_accept ''carol'') =
     (Json (Some (ex_task\<lparr>task_helperId := Some ''carol'', task_updatedAt := Some 9\<rparr>)),
      [ex_task\<lparr>task_helperId := Some ''carol'', task_updatedAt := Some 9\<rparr>]) \<and>
   task_status ex_open_task = Some ''open'' \<and> task_helperId ex_open_task = None \<and>
   patch_task_route ex_users [ex_open_task] 2
      \<lparr>user_sub = ''bob'', params_id = ''t1'', body = no_patch\<lparr>p_helperId := Some (Some ''bob'')\<rparr>\<rparr> =
     (Json (Some (ex_open_task\<lparr>task_helperId := Some ''bob'', task_updatedAt := Some 2\<rparr>)),
      [ex_open_task\<lparr>task_helperId := Some ''bob'', task_updatedAt := Some 2\<rparr>]) \<and>
   task_status (ex_open_task\<lparr>task_helperId := Some ''bob'', task_updatedAt := Some 2\<rparr>) \<noteq>
     Some ''accepted''"
  by (simp add: ex_accept_def patch_task_route_def updateTask_def getTask_def
      patch_values_ok_def valid_text_def fits_varchar255_def patch_not_null_ok_def
      patch_refs_ok_def no_patch_def truthy_string_def set_task_def set_req_def
      set_not_null_def set_varchar255_def set_numeric_def Let_def
      ex_task_def ex_open_task_def ex_users_def)

section \<open>Rounding\<close>

lemma round_half_even_error: "\<bar>of_int (round_half_even r) - r\<bar> \<le> 1 / 2"
proof -
  have "of_int \<lfloor>r\<rfloor> \<le> r" "r < of_int \<lfloor>r\<rfloor> + 1" by linarith+
  then show ?thesis by (auto simp add: round_half_even_def Let_def)
qed

lemma round_half_even_int: "round_half_even (of_int k) = k"
  by (simp add: round_half_even_def)

lemma exponent_up_range:
  "1 \<le> q \<Longrightarrow> q < 2 ^ m \<Longrightarrow> m \<le> k \<Longrightarrow> 0 \<le> exponent_up k q \<and> exponent_up k q < int m"
proof (induction k arbitrary: q m)
  case 0
  then show ?case by simp
next
  case (Suc k)
  show ?case
  proof (cases "2 \<le> q")
    case False
    have "m \<noteq> 0" using Suc.prems by (cases m) auto
    with False show ?thesis by simp
  next
    case True
    then obtain m' where m: "m = Suc m'" using Suc.prems by (cases m) auto
    have "1 \<le> q / 2" "q / 2 < 2 ^ m'" "m' \<le> k" using True Suc.prems m by auto
    from Suc.IH[OF this] True m show ?thesis by simp
  qed
qed

text \<open>An integer below \<open>2 ^ 53\<close> is a binary64 value.\<close>

lemma binary64_int:
  assumes "0 \<le> k" "k < 2 ^ 53"
  shows "binary64 (of_int k) = of_int k"
proof (cases "k = 0")
  case True
  then show ?thesis by (simp add: binary64_def round_half_even_def)
next
  case False
  with assms have k1: "(1::rat) \<le> of_int k" by simp
  have "(of_int k :: rat) < of_int (2 ^ 53)" using assms(2) by (simp only: of_int_less_iff)
  then have k2: "(of_int k :: rat) < 2 ^ 53" by simp
  define e where "e = exponent (of_int k)"
  have "e = exponent_up 1023 (of_int k)" using k1 by (simp add: e_def exponent_def)
  with exponent_up_range[OF k1 k2, of 1023] have e: "0 \<le> e" "e < 53" by simp_all
  define j where "j = nat (52 - e)"
  have p: "(2::rat) powi (e - 52) = inverse (2 ^ j)"
    using e by (simp add: power_int_def j_def power_one_over inverse_eq_divide)
  have "of_int k / (2 powi (e - 52)) = (of_int (k * 2 ^ j) :: rat)"
    by (simp add: p divide_inverse)
  then have "round_half_even (of_int k / (2 powi (e - 52))) = k * 2 ^ j"
    by (simp only: round_half_even_int)
  then show ?thesis
    by (simp add: binary64_def e_def[symmetric] p)
qed

lemma binary64_error:
  assumes "1 \<le> q" "q < 8"
  shows "\<bar>binary64 q - q\<bar> \<le> 1 / 2 ^ 51"
proof -
  define e where "e = exponent q"
  have "e = exponent_up 1023 q" using assms by (simp add: e_def exponent_def)
  moreover have "q < 2 ^ 3" using assms by simp
  ultimately have e: "0 \<le> e" "e < 3" using exponent_up_range[OF assms(1), of 3 1023] by simp_all
  define u :: rat where "u = 2 powi (e - 52)"
  have upos: "0 < u" by (simp add: u_def)
  have "u \<le> 2 powi (- 50)" unfolding u_def using e by (intro power_int_increasing) simp_all
  then have ule: "u \<le> 1 / 2 ^ 50" by (simp add: power_int_def power_inverse field_simps)
  have "binary64 q - q = (of_int (round_half_even (q / u)) - q / u) * u"
    using upos by (simp add: binary64_def e_def[symmetric] u_def[symmetric] algebra_simps)
  then have "\<bar>binary64 q - q\<bar> = \<bar>of_int (round_half_even (q / u)) - q / u\<bar> * u"
    using upos by (simp add: abs_mult)
  also have "\<dots> \<le> (1 / 2) * u"
    using upos by (intro mult_right_mono round_half_even_error) simp
  also have "\<dots> \<le> (1 / 2) * (1 / 2 ^ 50)" using ule by simp
  finally show ?thesis by simp
qed

section \<open>The rating aggregate\<close>

lemma js_sum_exact:
  assumes "\<forall>x\<in>set xs. 0 \<le> x \<and> x \<le> 5" "0 \<le> a" "a + 5 * int (length xs) < 2 ^ 53"
  shows "foldl (\<lambda>sum x. js_add sum (of_int x)) (of_int a) xs = of_int (a + sum_list xs)"
  using assms
proof (induction xs arbitrary: a)
  case Nil
  then show ?case by simp
next
  case (Cons x xs)
  have x: "0 \<le> x" "x \<le> 5" using Cons.prems(1) by simp_all
  have "js_add (of_int a) (of_int x) = binary64 (of_int (a + x))"
    by (simp add: js_add_def)
  also have "\<dots> = of_int (a + x)"
    using x Cons.prems by (intro binary64_int) simp_all
  finally have step: "js_add (of_int a) (of_int x) = of_int (a + x)" .
  have "foldl (\<lambda>sum x. js_add sum (of_int x)) (of_int (a + x)) xs = of_int (a + x + sum_list xs)"
    using x Cons.prems by (intro Cons.IH) simp_all
  then show ?case by (simp add: step add.assoc)
qed

lemma avgRating_scores:
  assumes "\<forall>r\<in>set rs. 1 \<le> rating r \<and> rating r \<le> 5" "rs \<noteq> []" "length rs < 2 ^ 32"
  shows "avgRating rs =
     Some (binary64 (of_int (sum_list (map rating rs)) / of_nat (length rs)))"
proof -
  have "foldl (\<lambda>sum r. js_add sum (of_int (rating r))) 0 rs =
        foldl (\<lambda>sum x. js_add sum (of_int x)) (of_int 0) (map rating rs)"
    by (simp add: foldl_map)
  also have "\<dots> = of_int (0 + sum_list (map rating rs))"
    using assms by (intro js_sum_exact) auto
  finally show ?thesis using assms(2) by (simp add: avgRating_def js_div_def)
qed

text \<open>
  The quotient of a sum \<open>S\<close> of \<open>n\<close> scores between 1 and 5 is at most \<open>2 ^ -51\<close> away
  from the double that the division returns, which is too little to carry a quotient that is
  not half-way between two hundredths over to the other side.
\<close>

lemma toFixed2_nearest:
  fixes S n :: int
  assumes n: "0 < n" "n < 2 ^ 32" and S: "n \<le> S" "S \<le> 5 * n"
  defines "h \<equiv> toFixed2 (binary64 (of_int S / of_int n))"
  shows "2 * n * h \<le> 200 * S + n" and "200 * S - n \<le> 2 * n * h"
proof -
  define q :: rat where "q = of_int S / of_int n"
  define x where "x = binary64 q"
  define N :: rat where "N = of_int n"
  have Npos: "0 < N" using n by (simp add: N_def)
  have Nq: "N * q = of_int S" using Npos by (simp add: q_def N_def)
  have "(of_int n :: rat) \<le> of_int S" using S(1) by (simp only: of_int_le_iff)
  then have q1: "1 \<le> q" using Npos by (simp add: q_def N_def field_simps)
  have "(of_int S :: rat) \<le> of_int (5 * n)" using S(2) by (simp only: of_int_le_iff)
  then have "q \<le> 5" using Npos by (simp add: q_def N_def field_simps)
  then have q8: "q < 8" by simp
  have err: "\<bar>x - q\<bar> \<le> 1 / 2 ^ 51" unfolding x_def by (rule binary64_error[OF q1 q8])
  have e1: "x \<le> q + 1 / 2 ^ 51" and e2: "q - 1 / 2 ^ 51 \<le> x"
    using err by linarith+
  have "(1 :: rat) / 2 ^ 51 < 1" by simp
  then have xpos: "\<not> x < 0" using e2 q1 by linarith
  have h: "h = \<lfloor>x * 100 + 1 / 2\<rfloor>" using xpos by (simp add: h_def toFixed2_def x_def q_def)
  have hle: "of_int h \<le> x * 100 + 1 / 2" and hgt: "x * 100 + 1 / 2 < of_int h + 1"
    unfolding h by linarith+
  have "N < 2 ^ 32"
  proof -
    have "(of_int n :: rat) < of_int (2 ^ 32)" using n(2) by (simp only: of_int_less_iff)
    then show ?thesis by (simp add: N_def)
  qed
  then have Ne: "N * (1 / 2 ^ 51) < 1 / 200" by simp
  have N0: "0 \<le> N" using Npos by simp
  have xu: "N * x \<le> N * (q + 1 / 2 ^ 51)" by (rule mult_left_mono[OF e1 N0])
  have xl: "N * (q - 1 / 2 ^ 51) \<le> N * x" by (rule mult_left_mono[OF e2 N0])
  have a: "N * of_int h \<le> N * (x * 100 + 1 / 2)"
    using hle Npos by (intro mult_left_mono) simp_all
  have b: "N * (x * 100 + 1 / 2) < N * (of_int h + 1)"
    using hgt Npos by (intro mult_strict_left_mono) simp_all
  have up: "2 * (N * of_int h) < 200 * of_int S + N + 1"
    using a xu Ne Nq by (simp add: algebra_simps)
  have lo: "200 * of_int S - N - 1 < 2 * (N * of_int h)"
    using b xl Ne Nq by (simp add: algebra_simps)
  have "(of_int (2 * n * h) :: rat) < of_int (200 * S + n + 1)"
    using up by (simp add: N_def)
  then have "2 * n * h < 200 * S + n + 1" by (simp only: of_int_less_iff)
  then show "2 * n * h \<le> 200 * S + n" by simp
  have "(of_int (200 * S - n - 1) :: rat) < of_int (2 * n * h)"
    using lo by (simp add: N_def)
  then have "200 * S - n - 1 < 2 * n * h" by (simp only: of_int_less_iff)
  then show "200 * S - n \<le> 2 * n * h" by simp
qed

lemma sum_list_bounds:
  "\<forall>x\<in>set xs. 1 \<le> x \<and> x \<le> (5::int) \<Longrightarrow>
   int (length xs) \<le> sum_list xs \<and> sum_list xs \<le> 5 * int (length xs)"
  by (induction xs) auto

lemma createRating_ok:
  assumes fresh: "newId \<notin> set (map rating_id ratings)"
    and refs: "ins_rating_taskId ins \<in> set (map task_id tasks)"
      "ins_raterId ins \<in> set (map user_id users)" "ins_ratedId ins \<in> set (map user_id users)"
    and score: "1 \<le> ins_rating ins" "ins_rating ins \<le> 5"
    and prev: "\<forall>r\<in>set ratings. ratedId r = ins_ratedId ins \<longrightarrow> 1 \<le> rating r \<and> rating r \<le> 5"
    and size: "length ratings + 1 < 2 ^ 32"
  shows "createRating users tasks ratings newId now ins =
     (Inr (newRatingRow newId now ins), ratings @ [newRatingRow newId now ins],
      setUserRating users (ins_ratedId ins)
        (toFixed2 (binary64
           (of_int (sum_list (scoresOf (ratings @ [newRatingRow newId now ins]) (ins_ratedId ins))) /
            of_nat (length (scoresOf (ratings @ [newRatingRow newId now ins]) (ins_ratedId ins)))))))"
proof -
  define row where "row = newRatingRow newId now ins"
  define rs where "rs = filter (\<lambda>r. ratedId r = ins_ratedId ins) (ratings @ [row])"
  have rowf: "ratedId row = ins_ratedId ins" "rating row = ins_rating ins"
    by (simp_all add: row_def newRatingRow_def)
  have ne: "rs \<noteq> []" by (simp add: rs_def rowf)
  have r15: "\<forall>r\<in>set rs. 1 \<le> rating r \<and> rating r \<le> 5"
    using prev score by (auto simp add: rs_def rowf)
  have "length rs \<le> length (ratings @ [row])" unfolding rs_def by (rule length_filter_le)
  then have len: "length rs < 2 ^ 32" using size by simp
  have avg: "avgRating rs = Some (binary64 (of_int (sum_list (map rating rs)) / of_nat (length rs)))"
    by (rule avgRating_scores[OF r15 ne len])
  define S where "S = sum_list (map rating rs)"
  define n where "n = int (length rs)"
  have n: "0 < n" "n < 2 ^ 32" using ne len by (simp_all add: n_def)
  have "int (length (map rating rs)) \<le> sum_list (map rating rs) \<and>
        sum_list (map rating rs) \<le> 5 * int (length (map rating rs))"
    using r15 by (intro sum_list_bounds) simp
  then have S: "n \<le> S" "S \<le> 5 * n" by (simp_all add: S_def n_def)
  define h where "h = toFixed2 (binary64 (of_int S / of_int n))"
  have "2 * n * h \<le> 200 * S + n" "200 * S - n \<le> 2 * n * h"
    unfolding h_def by (rule toFixed2_nearest[OF n S])+
  then have "2 * n * h \<le> 1001 * n" "- n \<le> 2 * n * h" using S by linarith+
  then have "n * (2 * h) \<le> n * 1001" "n * (- 1) \<le> n * (2 * h)" by (simp_all add: mult_ac)
  then have "2 * h \<le> 1001" "- 1 \<le> 2 * h" using n(1) by (simp_all only: mult_le_cancel_left_pos)
  then have small: "\<not> 1000 \<le> \<bar>h\<bar>" by linarith
  have hh: "toFixed2 (binary64 (of_int (sum_list (map rating rs)) / of_nat (length rs))) = h"
    by (simp add: h_def S_def n_def)
  have range: "\<not> (ins_rating ins < - (2 ^ 31) \<or> 2 ^ 31 \<le> ins_rating ins)"
    using score by simp
  have cr: "createRating users tasks ratings newId now ins =
      (case avgRating rs of
         None \<Rightarrow> (Inl InvalidTextRepresentation, ratings @ [row], users)
       | Some avg \<Rightarrow>
           if 1000 \<le> \<bar>toFixed2 avg\<bar> then (Inl NumericValueOutOfRange, ratings @ [row], users)
           else (Inr row, ratings @ [row], setUserRating users (ins_ratedId ins) (toFixed2 avg)))"
    unfolding rs_def row_def using fresh refs range
    by (simp add: createRating_def Let_def del: filter_append)
  have sc: "scoresOf (ratings @ [row]) (ins_ratedId ins) = map rating rs"
    by (simp only: scoresOf_def rs_def)
  show ?thesis
    unfolding row_def[symmetric] sc cr avg using small hh by simp
qed

lemma setUserRating_ids [simp]: "map user_id (setUserRating users i v) = map user_id users"
  by (induction users) (auto simp add: setUserRating_def)

lemma setUserRating_twice [simp]:
  "setUserRating (setUserRating users i v) i w = setUserRating users i w"
  by (induction users) (auto simp add: setUserRating_def)

lemma createRating_user_ids:
  "map user_id (snd (snd (createRating users tasks ratings newId now ins))) = map user_id users"
  by (simp add: createRating_def Let_def split: option.splits)

lemma createRatings_user_ids:
  "map user_id (snd (createRatings users tasks ratings calls)) = map user_id users"
proof (induction calls arbitrary: users ratings)
  case Nil
  then show ?case by simp
next
  case (Cons c calls)
  obtain newId now ins where c: "c = (newId, now, ins)" by (cases c)
  obtain res ratings' users' where r: "createRating users tasks ratings newId now ins = (res, ratings', users')"
    by (cases "createRating users tasks ratings newId now ins")
  have "map user_id users' = map user_id users"
    using createRating_user_ids[of users tasks ratings newId now ins] r by simp
  then show ?case using Cons.IH[of users' ratings'] by (simp add: c r)
qed

lemma createRatings_result:
  assumes "u \<in> set (map user_id users)"
    and "\<forall>(newId, now, ins)\<in>set calls.
           ins_ratedId ins = u \<and> 1 \<le> ins_rating ins \<and> ins_rating ins \<le> 5 \<and>
           ins_rating_taskId ins \<in> set (map task_id tasks) \<and>
           ins_raterId ins \<in> set (map user_id users)"
    and "distinct (map rating_id ratings @ map fst calls)"
    and "\<forall>r\<in>set ratings. ratedId r = u \<longrightarrow> 1 \<le> rating r \<and> rating r \<le> 5"
    and "length ratings + length calls < 2 ^ 32"
  shows "createRatings users tasks ratings calls =
     (ratings @ map (\<lambda>(newId, now, ins). newRatingRow newId now ins) calls,
      if calls = [] then users
      else setUserRating users u
        (toFixed2 (binary64
           (of_int (sum_list (scoresOf
              (ratings @ map (\<lambda>(newId, now, ins). newRatingRow newId now ins) calls) u)) /
            of_nat (length (scoresOf
              (ratings @ map (\<lambda>(newId, now, ins). newRatingRow newId now ins) calls) u))))))"
  using assms
proof (induction calls arbitrary: users ratings)
  case Nil
  then show ?case by simp
next
  case (Cons c calls)
  obtain newId now ins where c: "c = (newId, now, ins)" by (cases c)
  define row where "row = newRatingRow newId now ins"
  have ins: "ins_ratedId ins = u" "1 \<le> ins_rating ins" "ins_rating ins \<le> 5"
    "ins_rating_taskId ins \<in> set (map task_id tasks)" "ins_raterId ins \<in> set (map user_id users)"
    using Cons.prems(2) by (simp_all add: c)
  have fresh: "newId \<notin> set (map rating_id ratings)" using Cons.prems(3) by (auto simp add: c)
  define h1 where "h1 = toFixed2 (binary64
           (of_int (sum_list (scoresOf (ratings @ [row]) u)) /
            of_nat (length (scoresOf (ratings @ [row]) u))))"
  have step: "createRating users tasks ratings newId now ins =
      (Inr row, ratings @ [row], setUserRating users u h1)"
    unfolding row_def h1_def ins(1)[symmetric]
    using Cons.prems(1,4,5) ins
    by (intro createRating_ok[OF fresh]) simp_all
  have rowf: "ratedId row = u" "rating row = ins_rating ins" "rating_id row = newId"
    by (simp_all add: row_def newRatingRow_def ins)
  have IH: "createRatings (setUserRating users u h1) tasks (ratings @ [row]) calls =
     ((ratings @ [row]) @ map (\<lambda>(newId, now, ins). newRatingRow newId now ins) calls,
      if calls = [] then setUserRating users u h1
      else setUserRating (setUserRating users u h1) u
        (toFixed2 (binary64
           (of_int (sum_list (scoresOf
              ((ratings @ [row]) @ map (\<lambda>(newId, now, ins). newRatingRow newId now ins) calls) u)) /
            of_nat (length (scoresOf
              ((ratings @ [row]) @ map (\<lambda>(newId, now, ins). newRatingRow newId now ins) calls) u))))))"
  proof (rule Cons.IH)
    show "u \<in> set (map user_id (setUserRating users u h1))" using Cons.prems(1) by simp
    show "\<forall>(newId, now, ins)\<in>set calls.
           ins_ratedId ins = u \<and> 1 \<le> ins_rating ins \<and> ins_rating ins \<le> 5 \<and>
           ins_rating_taskId ins \<in> set (map task_id tasks) \<and>
           ins_raterId ins \<in> set (map user_id (setUserRating users u h1))"
      using Cons.prems(2) by simp
    show "distinct (map rating_id (ratings @ [row]) @ map fst calls)"
      using Cons.prems(3) by (simp add: c rowf)
    show "\<forall>r\<in>set (ratings @ [row]). ratedId r = u \<longrightarrow> 1 \<le> rating r \<and> rating r \<le> 5"
      using Cons.prems(4) ins by (auto simp add: rowf)
    show "length (ratings @ [row]) + length calls < 2 ^ 32"
      using Cons.prems(5) by simp
  qed
  have unfold: "createRatings users tasks ratings (c # calls) =
      createRatings (setUserRating users u h1) tasks (ratings @ [row]) calls"
    by (simp add: c step)
  show ?case
  proof (cases "calls = []")
    case True
    then show ?thesis
      unfolding unfold IH by (simp add: c row_def[symmetric] h1_def)
  next
    case False
    then show ?thesis
      unfolding unfold IH by (simp add: c row_def[symmetric])
  qed
qed

lemma scoresOf_new_rows:
  assumes "\<forall>(newId, now, ins)\<in>set calls. ins_ratedId ins = u"
  shows "scoresOf (ratings @ map (\<lambda>(newId, now, ins). newRatingRow newId now ins) calls) u =
         scoresOf ratings u @ map (\<lambda>(newId, now, ins). ins_rating ins) calls"
  using assms
  by (induction calls arbitrary: ratings) (auto simp add: scoresOf_def newRatingRow_def)

lemma nearest_hundredth:
  fixes S n h :: int
  assumes "0 < n" "2 * n * h \<le> 200 * S + n" "200 * S - n \<le> 2 * n * h"
  shows "\<bar>of_int h / 100 - of_int S / of_int n\<bar> \<le> (1 / 200 :: rat)"
proof -
  define N :: rat where "N = of_int n"
  have N: "0 < N" using assms(1) by (simp add: N_def)
  have "(of_int (2 * n * h) :: rat) \<le> of_int (200 * S + n)"
    using assms(2) by (simp only: of_int_le_iff)
  then have up: "2 * N * of_int h \<le> 200 * of_int S + N" by (simp add: N_def)
  have "(of_int (200 * S - n) :: rat) \<le> of_int (2 * n * h)"
    using assms(3) by (simp only: of_int_le_iff)
  then have lo: "200 * of_int S - N \<le> 2 * N * of_int h" by (simp add: N_def)
  have "of_int h / 100 - of_int S / N \<le> 1 / 200" "- (1 / 200) \<le> of_int h / 100 - of_int S / N"
    using N up lo by (simp_all add: field_simps)
  then have "\<bar>of_int h / 100 - of_int S / N\<bar> \<le> 1 / 200" by linarith
  then show ?thesis by (simp only: N_def)
qed

lemma stored_rating_near_mean:
  fixes final :: "rating list"
  assumes r15: "\<forall>x\<in>set (scoresOf final u). 1 \<le> x \<and> x \<le> 5"
   and ne: "scoresOf final u \<noteq> []"
   and len: "length final < 2 ^ 32"
  shows "\<bar>of_int (toFixed2 (binary64 (of_int (sum_list (scoresOf final u)) / of_int (int (length (scoresOf final u)))))) / 100 - meanOf (scoresOf final u)\<bar> \<le> 1 / 200"
proof -
  define S where "S = sum_list (scoresOf final u)"
  define n where "n = int (length (scoresOf final u))"
  define h where "h = toFixed2 (binary64 (of_int S / of_int n))"
  have n0: "0 < n" using ne by (simp add: n_def)
  have "length (scoresOf final u) \<le> length final"
    by (simp add: scoresOf_def)
  then have n32: "n < 2 ^ 32" using len by (simp add: n_def)
  have Sn: "n \<le> S" "S \<le> 5 * n"
    using sum_list_bounds[OF r15] by (simp_all add: S_def n_def)
  have "\<bar>of_int h / 100 - of_int S / of_int n\<bar> \<le> (1 / 200 :: rat)"
    using toFixed2_nearest[OF n0 n32 Sn] unfolding h_def[symmetric]
    by (intro nearest_hundredth[OF n0]) simp_all
  then show ?thesis
    unfolding h_def S_def n_def meanOf_def by simp
qed

text \<open>
  C9 (as amended). Let the ratings of user \<open>u\<close> in the table have scores between 1 and 5,
  and let a non-empty sequence of \<open>createRating\<close> calls rate \<open>u\<close> with scores between 1 and
  5, in any order and for any existing tasks and raters, with fresh keys and fewer than
  \<open>2 ^ 32\<close> rows in all (the bound of a JavaScript array). Then the scores of \<open>u\<close> in the
  table are the earlier ones followed by the submitted ones, and the \<open>rating\<close> stored for
  \<open>u\<close> is a number of hundredths that is nearest to their arithmetic mean: it differs from
  the mean by at most 0.005.
\<close>

theorem rating_is_nearest_hundredth:
  assumes "u \<in> set (map user_id users)"
    and "\<forall>(newId, now, ins)\<in>set calls.
           ins_ratedId ins = u \<and> 1 \<le> ins_rating ins \<and> ins_rating ins \<le> 5 \<and>
           ins_rating_taskId ins \<in> set (map task_id tasks) \<and>
           ins_raterId ins \<in> set (map user_id users)"
    and "distinct (map rating_id ratings @ map fst calls)"
    and "\<forall>r\<in>set ratings. ratedId r = u \<longrightarrow> 1 \<le> rating r \<and> rating r \<le> 5"
    and "length ratings + length calls < 2 ^ 32"
    and "calls \<noteq> []"
  shows "scoresOf (fst (createRatings users tasks ratings calls)) u =
           scoresOf ratings u @ map (\<lambda>(newId, now, ins). ins_rating ins) calls \<and>
         (\<forall>row\<in>set (snd (createRatings users tasks ratings calls)). user_id row = u \<longrightarrow>
            (\<exists>h. user_rating row = Some h \<and>
                 \<bar>of_int h / 100 -
                   meanOf (scoresOf (fst (createRatings users tasks ratings calls)) u)\<bar> \<le> 1 / 200))"
proof -
  define final where
    "final = ratings @ map (\<lambda>(newId, now, ins). newRatingRow newId now ins) calls"
  define h where "h = toFixed2 (binary64 (of_int (sum_list (scoresOf final u)) /
      of_int (int (length (scoresOf final u)))))"
  have res: "createRatings users tasks ratings calls = (final, setUserRating users u h)"
    unfolding h_def final_def
    using createRatings_result[OF assms(1-5)] assms(6)
    by simp
  have same: "\<forall>(newId, now, ins)\<in>set calls. ins_ratedId ins = u"
    using assms(2) by auto
  have sc: "scoresOf final u =
      scoresOf ratings u @ map (\<lambda>(newId, now, ins). ins_rating ins) calls"
    unfolding final_def by (rule scoresOf_new_rows[OF same])
  have "\<forall>x\<in>set (scoresOf ratings u @ map (\<lambda>(newId, now, ins). ins_rating ins) calls).
          1 \<le> x \<and> x \<le> 5"
    using assms(2,4) by (auto simp add: scoresOf_def)
  then have r15: "\<forall>x\<in>set (scoresOf final u). 1 \<le> x \<and> x \<le> 5"
    by (simp only: sc)
  have "map (\<lambda>(newId, now, ins). ins_rating ins) calls \<noteq> []" using assms(6) by simp
  then have ne: "scoresOf final u \<noteq> []" by (simp only: sc append_is_Nil_conv) simp
  have len: "length final < 2 ^ 32" using assms(5) by (simp add: final_def)
  have near: "\<bar>of_int h / 100 - meanOf (scoresOf final u)\<bar> \<le> 1 / 200"
    unfolding h_def by (rule stored_rating_near_mean[OF r15 ne len])
  have stored: "user_rating row = Some h"
    if "row \<in> set (setUserRating users u h)" "user_id row = u" for row
  proof -
    from that(1) obtain x where "x \<in> set users"
      "row = (if user_id x = u then x\<lparr>user_rating := Some h\<rparr> else x)"
      by (auto simp add: setUserRating_def)
    with that(2) show ?thesis by (cases "user_id x = u") simp_all
  qed
  show ?thesis
    unfolding res fst_conv snd_conv
  proof (intro conjI ballI impI)
    show "scoresOf final u =
      scoresOf ratings u @ map (\<lambda>(newId, now, ins). ins_rating ins) calls"
      by (rule sc)
  next
    fix row
    assume "row \<in> set (setUserRating users u h)" "user_id row = u"
    then have "user_rating row = Some h" by (rule stored)
    with near show "\<exists>h. user_rating row = Some h \<and>
        \<bar>of_int h / 100 - meanOf (scoresOf final u)\<bar> \<le> 1 / 200"
      by blast
  qed
qed

subsection \<open>The example calls\<close>

lemma ex_calls_scores:
  "map (\<lambda>(newId, now, ins). ins_rating ins) (ex_calls u scores) = scores"
proof -
  have "map (\<lambda>(newId, now, ins). ins_rating ins) (ex_calls u scores) =
        map snd (zip [0..<length scores] scores)"
    by (simp add: ex_calls_def case_prod_beta o_def)
  then show ?thesis by simp
qed

lemma ex_calls_keys:
  "map fst (ex_calls u scores) = map (\<lambda>i. replicate (Suc i) CHR ''r'') [0..<length scores]"
proof -
  have "map fst (ex_calls u scores) =
        map (\<lambda>x. replicate (Suc (fst x)) CHR ''r'') (zip [0..<length scores] scores)"
    by (simp add: ex_calls_def case_prod_beta o_def)
  also have "\<dots> = map (\<lambda>i. replicate (Suc i) CHR ''r'') (map fst (zip [0..<length scores] scores))"
    by (simp only: map_map o_def)
  finally show ?thesis by simp
qed

lemma ex_calls_distinct: "distinct (map fst (ex_calls u scores))"
proof -
  have "inj_on (\<lambda>i. replicate (Suc i) CHR ''r'') (set [0..<length scores])"
    by (rule inj_onI) (auto dest: arg_cong[where f = length])
  then show ?thesis by (simp only: ex_calls_keys distinct_map distinct_upt simp_thms)
qed

lemma ex_calls_ok:
  assumes "\<forall>x\<in>set scores. 1 \<le> x \<and> x \<le> 5"
  shows "\<forall>(newId, now, ins)\<in>set (ex_calls ''bob'' scores).
           ins_ratedId ins = ''bob'' \<and> 1 \<le> ins_rating ins \<and> ins_rating ins \<le> 5 \<and>
           ins_rating_taskId ins \<in> set (map task_id [ex_task]) \<and>
           ins_raterId ins \<in> set (map user_id ex_users)"
  using assms
  by (auto simp add: ex_calls_def ex_task_def ex_users_def dest: set_zip_rightD)

lemma ex_calls_result:
  assumes "\<forall>x\<in>set scores. 1 \<le> x \<and> x \<le> 5" "scores \<noteq> []" "length scores < 2 ^ 32"
  shows "snd (createRatings ex_users [ex_task] [] (ex_calls ''bob'' scores)) =
     setUserRating ex_users ''bob''
       (toFixed2 (binary64 (of_int (sum_list scores) / of_nat (length scores))))"
proof -
  have u: "''bob'' \<in> set (map user_id ex_users)" by (simp add: ex_users_def)
  have d: "distinct (map rating_id [] @ map fst (ex_calls ''bob'' scores))"
    using ex_calls_distinct[of "''bob''" scores] by simp
  have p: "\<forall>r\<in>set []. ratedId r = ''bob'' \<longrightarrow> 1 \<le> rating r \<and> rating r \<le> 5" by simp
  have l: "length [] + length (ex_calls ''bob'' scores) < 2 ^ 32"
    using assms(3) by (simp add: ex_calls_def)
  have ne: "ex_calls ''bob'' scores \<noteq> []" using assms(2) by (simp add: ex_calls_def)
  have same: "\<forall>(newId, now, ins)\<in>set (ex_calls ''bob'' scores). ins_ratedId ins = ''bob''"
    using ex_calls_ok[OF assms(1)] by auto
  have sc: "scoresOf ([] @ map (\<lambda>(newId, now, ins). newRatingRow newId now ins)
                (ex_calls ''bob'' scores)) ''bob'' = scores"
    unfolding scoresOf_new_rows[OF same] by (simp add: ex_calls_scores scoresOf_def)
  show ?thesis
    unfolding createRatings_result[OF u ex_calls_ok[OF assms(1)] d p l] sc snd_conv
    using ne by simp
qed

lemma toFixed2_examples:
  "toFixed2 (binary64 (41 / 40)) = 102" "toFixed2 (binary64 (33 / 8)) = 413"
  by code_simp+

text \<open>
  The claim as first stated names one rounding of the mean. Whatever rule that rounding has
  for a tie, the stored value departs from it: 39 scores of 1 and one of 2 have the mean
  1.025, which rounds half up to 1.03, and 1.02 is stored (the double nearest to 1.025 lies
  below it); seven scores of 4 and one of 5 have the mean 4.125, which rounds half to even to
  4.12, and 4.13 is stored (4.125 is a double, and \<open>toFixed\<close> takes the larger neighbour).
\<close>

theorem rating_rounding_counterexample:
  "map user_rating (snd (createRatings ex_users [ex_task] [] (ex_calls ''bob'' (replicate 39 1 @ [2])))) =
     [Some 0, Some 102, Some 0] \<and>
   mean_half_up (replicate 39 1 @ [2]) = 103 \<and>
   map user_rating (snd (createRatings ex_users [ex_task] [] (ex_calls ''bob'' (replicate 7 4 @ [5])))) =
     [Some 0, Some 413, Some 0] \<and>
   mean_half_even (replicate 7 4 @ [5]) = 412"
proof -
  have a: "snd (createRatings ex_users [ex_task] [] (ex_calls ''bob'' (replicate 39 1 @ [2]))) =
      setUserRating ex_users ''bob'' 102"
    by (subst ex_calls_result) (simp_all add: toFixed2_examples sum_list_replicate)
  have b: "snd (createRatings ex_users [ex_task] [] (ex_calls ''bob'' (replicate 7 4 @ [5]))) =
      setUserRating ex_users ''bob'' 413"
    by (subst ex_calls_result) (simp_all add: toFixed2_examples sum_list_replicate)
  have c: "mean_half_up (replicate 39 1 @ [2]) = 103"
    by (simp add: mean_half_up_def meanOf_def sum_list_replicate)
  have "\<lfloor>825 / 2 :: rat\<rfloor> = 412" by (rule floor_unique) simp_all
  then have d: "mean_half_even (replicate 7 4 @ [5]) = 412"
    by (simp add: mean_half_even_def meanOf_def round_half_even_def sum_list_replicate Let_def)
  show ?thesis
    unfolding a b using c d by (simp add: setUserRating_def ex_users_def)
qed

theorem rating_is_nearest_hundredth_witness:
  "''bob'' \<in> set (map user_id ex_users) \<and> ex_calls ''bob'' [4, 5] \<noteq> [] \<and>
   scoresOf (fst (createRatings ex_users [ex_task] [] (ex_calls ''bob'' [4, 5]))) ''bob'' = [4, 5] \<and>
   user_id (snd (createRatings ex_users [ex_task] [] (ex_calls ''bob'' [4, 5])) ! 1) = ''bob'' \<and>
   user_rating (snd (createRatings ex_users [ex_task] [] (ex_calls ''bob'' [4, 5])) ! 1) = Some 450"
proof -
  let ?calls = "ex_calls ''bob'' [4, 5]"
  let ?users' = "snd (createRatings ex_users [ex_task] [] ?calls)"
  have u: "''bob'' \<in> set (map user_id ex_users)" by (simp add: ex_users_def)
  have ok: "\<forall>(newId, now, ins)\<in>set ?calls.
           ins_ratedId ins = ''bob'' \<and> 1 \<le> ins_rating ins \<and> ins_rating ins \<le> 5 \<and>
           ins_rating_taskId ins \<in> set (map task_id [ex_task]) \<and>
           ins_raterId ins \<in> set (map user_id ex_users)"
    by (rule ex_calls_ok) simp
  have d: "distinct (map rating_id [] @ map fst ?calls)"
    using ex_calls_distinct[of "''bob''" "[4, 5]"] by simp
  have p: "\<forall>r\<in>set []. ratedId r = ''bob'' \<longrightarrow> 1 \<le> rating r \<and> rating r \<le> 5" by simp
  have l: "length [] + length ?calls < 2 ^ 32" by (simp add: ex_calls_def)
  have ne: "?calls \<noteq> []" by (simp add: ex_calls_def)
  note t = rating_is_nearest_hundredth[OF u ok d p l ne]
  have sc: "scoresOf (fst (createRatings ex_users [ex_task] [] ?calls)) ''bob'' = [4, 5]"
    using t by (simp add: ex_calls_scores scoresOf_def)
  have ids: "map user_id ?users' = map user_id ex_users" by (rule createRatings_user_ids)
  have "length (map user_id ?users') = length (map user_id ex_users)" by (simp only: ids)
  then have len: "length ?users' = 3" by (simp add: ex_users_def)
  have a1: "user_id (?users' ! 1) = map user_id ?users' ! 1" using len by simp
  have a2: "map user_id ?users' ! 1 = map user_id ex_users ! 1" by (simp only: ids)
  have a3: "map user_id ex_users ! 1 = ''bob''" by (simp add: ex_users_def)
  have id1: "user_id (?users' ! 1) = ''bob''" by (rule trans[OF a1 trans[OF a2 a3]])
  have mem: "?users' ! 1 \<in> set ?users'" using len by simp
  from t mem id1 obtain h where h: "user_rating (?users' ! 1) = Some h"
    and near: "\<bar>of_int h / 100 - meanOf (scoresOf (fst (createRatings ex_users [ex_task] [] ?calls)) ''bob'')\<bar> \<le> 1 / 200"
    by blast
  have "\<bar>of_int h / 100 - (9 / 2 :: rat)\<bar> \<le> 1 / 200"
    using near by (simp add: sc meanOf_def)
  then have "(of_int h :: rat) < of_int 451" "(of_int 449 :: rat) < of_int h" by linarith+
  then have "h < 451" "449 < h" by (simp_all only: of_int_less_iff)
  then have "h = 450" by simp
  with h u ne sc id1 show ?thesis by simp
qed

end
